theory Spec2Isabelle
  imports Main "HOL-Library.Sublist"
begin

section \<open>Values of the Python program\<close>

text \<open>
  A parsed JSON document, as \<^verbatim>\<open>response.json()\<close> and the configuration loader
  produce it. A mapping keeps its keys in document order (Python dictionaries iterate in
  insertion order), so it is an association list. Numbers are the integers; floating
  point numbers are left out.
\<close>

datatype json =
    JNull
  | JBool bool
  | JInt int
  | JStr string
  | JList "json list"
  | JDict "(string \<times> json) list"

type_synonym pydict = "(string \<times> json) list"

subsection \<open>\<^verbatim>\<open>str\<close> and \<^verbatim>\<open>repr\<close>\<close>

definition digit_char :: "nat \<Rightarrow> char" where
  "digit_char d = ''0123456789'' ! d"

fun str_nat :: "nat \<Rightarrow> string" where
  "str_nat n = (if n < 10 then [digit_char n] else str_nat (n div 10) @ [digit_char (n mod 10)])"

declare str_nat.simps [simp del]

definition str_int :: "int \<Rightarrow> string" where
  "str_int i = (if i < 0 then CHR ''-'' # str_nat (nat (- i)) else str_nat (nat i))"

fun join :: "string \<Rightarrow> string list \<Rightarrow> string" where
  "join sep [] = []"
| "join sep [x] = x"
| "join sep (x # y # ys) = x @ sep @ join sep (y # ys)"

text \<open>
  \<^verbatim>\<open>repr\<close> of a string: single quotes, unless the text has a single quote and no
  double quote; the quote in use and the backslash are escaped. (Control characters,
  which \<^verbatim>\<open>repr\<close> also escapes, are left as they are: field names and values of
  the URLs treated here are printable.)
\<close>

definition repr_str :: "string \<Rightarrow> string" where
  "repr_str s =
     (let q = (if CHR 0x27 \<in> set s \<and> CHR 0x22 \<notin> set s then CHR 0x22 else CHR 0x27)
      in q # concat (map (\<lambda>c. if c = q \<or> c = CHR 0x5C then [CHR 0x5C, c] else [c]) s) @ [q])"

fun py_repr :: "json \<Rightarrow> string" where
  "py_repr JNull = ''None''"
| "py_repr (JBool b) = (if b then ''True'' else ''False'')"
| "py_repr (JInt i) = str_int i"
| "py_repr (JStr s) = repr_str s"
| "py_repr (JList xs) = ''['' @ join '', '' (map py_repr xs) @ '']''"
| "py_repr (JDict kvs) =
     ''{'' @ join '', '' (map (\<lambda>kv. repr_str (fst kv) @ '': '' @ py_repr (snd kv)) kvs) @ ''}''"

definition py_str :: "json \<Rightarrow> string" where
  "py_str v = (case v of JStr s \<Rightarrow> s | _ \<Rightarrow> py_repr v)"

text \<open>Truthiness of a value (\<^verbatim>\<open>if body\<close>).\<close>

fun truthy :: "json \<Rightarrow> bool" where
  "truthy JNull = False"
| "truthy (JBool b) = b"
| "truthy (JInt i) = (i \<noteq> 0)"
| "truthy (JStr s) = (s \<noteq> [])"
| "truthy (JList xs) = (xs \<noteq> [])"
| "truthy (JDict kvs) = (kvs \<noteq> [])"

subsection \<open>Dictionaries\<close>

definition dict_get :: "pydict \<Rightarrow> string \<Rightarrow> json option" where
  "dict_get d k = map_of d k"

text \<open>
  \<^verbatim>\<open>d[k] = v\<close>: an existing key keeps its place and takes the new value, a new
  key goes to the end.
\<close>

fun dict_set :: "pydict \<Rightarrow> string \<Rightarrow> json \<Rightarrow> pydict" where
  "dict_set [] k v = [(k, v)]"
| "dict_set ((k', v') # d) k v = (if k' = k then (k, v) # d else (k', v') # dict_set d k v)"

text \<open>\<^verbatim>\<open>d.update(e)\<close>\<close>

fun dict_update :: "pydict \<Rightarrow> pydict \<Rightarrow> pydict" where
  "dict_update d [] = d"
| "dict_update d ((k, v) # e) = dict_update (dict_set d k v) e"

subsection \<open>Strings\<close>

text \<open>\<^verbatim>\<open>sub in s\<close> on strings.\<close>

fun contains :: "string \<Rightarrow> string \<Rightarrow> bool" where
  "contains [] sub = (sub = [])"
| "contains (c # cs) sub = (prefix sub (c # cs) \<or> contains cs sub)"

text \<open>
  \<^verbatim>\<open>s.replace(old, new)\<close>: every occurrence of \<open>old\<close>, found from the left and
  not overlapping, becomes \<open>new\<close>. The counter tells how many characters of an occurrence
  already replaced are still to be passed over. With an empty \<open>old\<close> Python puts \<open>new\<close>
  around every character.
\<close>

fun replace_from :: "nat \<Rightarrow> string \<Rightarrow> string \<Rightarrow> string \<Rightarrow> string" where
  "replace_from k [] old new = []"
| "replace_from (Suc k) (c # cs) old new = replace_from k cs old new"
| "replace_from 0 (c # cs) old new =
     (if prefix old (c # cs) then new @ replace_from (length old - 1) cs old new
      else c # replace_from 0 cs old new)"

definition replace :: "string \<Rightarrow> string \<Rightarrow> string \<Rightarrow> string" where
  "replace s old new =
     (if old = [] then new @ concat (map (\<lambda>c. c # new) s) else replace_from 0 s old new)"

text \<open>\<^verbatim>\<open>s.upper()\<close> on ASCII letters.\<close>

definition upper_char :: "char \<Rightarrow> char" where
  "upper_char c =
     (let n = (of_char c :: nat) in if 97 \<le> n \<and> n \<le> 122 then char_of (n - 32) else c)"

definition upper :: "string \<Rightarrow> string" where
  "upper s = map upper_char s"

text \<open>\<^verbatim>\<open>s.split(sep)\<close> for a separator of one character.\<close>

fun split :: "char \<Rightarrow> string \<Rightarrow> string list" where
  "split sep [] = [[]]"
| "split sep (c # cs) =
     (if c = sep then [] # split sep cs
      else (case split sep cs of [] \<Rightarrow> [[c]] | p # ps \<Rightarrow> (c # p) # ps))"

text \<open>\<^verbatim>\<open>s.isdigit()\<close> and \<^verbatim>\<open>int(s)\<close> on a string of ASCII digits.\<close>

definition isdigit :: "string \<Rightarrow> bool" where
  "isdigit s = (s \<noteq> [] \<and> list_all (\<lambda>c. 48 \<le> (of_char c :: nat) \<and> (of_char c :: nat) \<le> 57) s)"

definition int_of_digits :: "string \<Rightarrow> nat" where
  "int_of_digits s = foldl (\<lambda>n c. 10 * n + (of_char c - 48)) 0 s"

section \<open>Exceptions, responses, requests and the trace of effects\<close>

text \<open>
  An exception that is an instance of \<^verbatim>\<open>Exception\<close>, the class every handler of
  the program names, with its message. A computation that may raise returns an \<open>outcome\<close>.
\<close>

datatype py_exception = PyException string

datatype 'a outcome = Returns 'a | Raises py_exception

fun exc_str :: "py_exception \<Rightarrow> string" where
  "exc_str (PyException m) = m"

text \<open>
  What the transport hands back: the status code, the raw body, and what
  \<^verbatim>\<open>response.json()\<close> gives for the body (\<open>None\<close> when it raises
  \<^verbatim>\<open>ValueError\<close>).
\<close>

record response =
  status_code :: int
  resp_text :: string
  json_body :: "json option"

record request =
  req_method :: string
  req_url :: "string option"
  req_params :: pydict
  req_headers :: pydict
  req_json :: "json option"
  req_auth :: "(json option \<times> json option) option"
  req_proxies :: "string option"
  req_verify :: bool
  req_timeout :: nat

text \<open>
  The data handed to the output stage and to default persistence: a JSON value or text,
  or the response object itself.
\<close>

datatype pdata = PJson json | PResponse response

datatype level = Debug | Info | Warning | Error

datatype hook_kind = Preprocessor | Postprocessor | OutputSink

text \<open>What is written into an artifact file.\<close>

datatype content = JsonDump pydict | Written string

datatype event =
    Log level string
  | Invoked hook_kind string
  | Sent request
  | TokenRequest
  | FileWritten string content
  | Slept int

section \<open>Configuration of one call\<close>

text \<open>
  An API configuration is a Python dictionary; its keys are the fields below, an absent
  key is \<open>None\<close>. The dictionaries nested in it under \<^verbatim>\<open>params\<close>,
  \<^verbatim>\<open>headers\<close> and \<^verbatim>\<open>body\<close> are objects of their own, which the
  processors update in place: the configuration holds their addresses and the store holds
  the objects (the object at address \<open>p\<close> is the \<open>p\<close>-th element of the store, and a
  new object goes to the end), so that \<^verbatim>\<open>dict.copy()\<close>, which copies the keys and
  shares the nested objects, is the copy of the record.
\<close>

type_synonym addr = nat

type_synonym store = "pydict list"

datatype body = BodyRef addr | BodyStr string

record hook =
  hook_name :: "string option"
  hook_args :: pydict

record api_config =
  url :: "string option"
  http_method :: "string option"
  params :: "addr option"
  headers :: "addr option"
  body :: "body option"
  verify :: "bool option"
  interval :: "int option"
  items_path :: "string option"
  preprocess :: "hook option"
  postprocess :: "hook option"
  output_hook :: "hook option"

text \<open>\<^verbatim>\<open>api_config.get(key, {})\<close> for a key that holds a dictionary.\<close>

definition deref :: "store \<Rightarrow> addr option \<Rightarrow> pydict" where
  "deref st a = (case a of None \<Rightarrow> [] | Some p \<Rightarrow> (if p < length st then st ! p else []))"

text \<open>
  A call \<^verbatim>\<open>f(a, b, **kwargs)\<close> raises \<^verbatim>\<open>TypeError\<close> before \<open>f\<close> runs
  when a key of \<open>kwargs\<close> names one of the positional parameters.
\<close>

definition kwargs_clash :: "string list \<Rightarrow> pydict \<Rightarrow> bool" where
  "kwargs_clash names kwargs = list_ex (\<lambda>k. k \<in> set names) (map fst kwargs)"

definition clash_error :: "string \<Rightarrow> py_exception" where
  "clash_error f = PyException (f @ ''() got multiple values for an argument'')"

section \<open>The processor registry (process_registry.py)\<close>

text \<open>
  A preprocessor takes the configuration and the named arguments and returns a
  configuration or \<open>None\<close>, or raises; it may update the nested dictionaries on the way.
  A postprocessor takes the response object; an output processor takes the processed data
  and the endpoint and returns a success flag.
\<close>

type_synonym preprocessor_fn =
  "store \<Rightarrow> api_config \<Rightarrow> pydict \<Rightarrow> api_config option outcome \<times> store"

type_synonym postprocessor_fn = "response \<Rightarrow> pydict \<Rightarrow> pdata option outcome"

type_synonym output_fn = "pdata \<Rightarrow> string option \<Rightarrow> pydict \<Rightarrow> bool outcome"

record registry =
  preprocessors :: "string \<Rightarrow> preprocessor_fn option"
  postprocessors :: "string \<Rightarrow> postprocessor_fn option"
  output_processors :: "string \<Rightarrow> output_fn option"

definition register_preprocessor :: "registry \<Rightarrow> string \<Rightarrow> preprocessor_fn \<Rightarrow> registry \<times> event list" where
  "register_preprocessor reg name f =
     (reg\<lparr>preprocessors := (preprocessors reg)(name \<mapsto> f)\<rparr>,
      (if preprocessors reg name \<noteq> None
       then [Log Warning (''Overriding existing preprocessor: '' @ name)] else [])
      @ [Log Info (''Registered preprocessor: '' @ name)])"

definition register_postprocessor :: "registry \<Rightarrow> string \<Rightarrow> postprocessor_fn \<Rightarrow> registry \<times> event list" where
  "register_postprocessor reg name f =
     (reg\<lparr>postprocessors := (postprocessors reg)(name \<mapsto> f)\<rparr>,
      (if postprocessors reg name \<noteq> None
       then [Log Warning (''Overriding existing postprocessor: '' @ name)] else [])
      @ [Log Info (''Registered postprocessor: '' @ name)])"

definition register_output_processor :: "registry \<Rightarrow> string \<Rightarrow> output_fn \<Rightarrow> registry \<times> event list" where
  "register_output_processor reg name f =
     (reg\<lparr>output_processors := (output_processors reg)(name \<mapsto> f)\<rparr>,
      (if output_processors reg name \<noteq> None
       then [Log Warning (''Overriding existing output processor: '' @ name)] else [])
      @ [Log Info (''Registered output processor: '' @ name)])"

text \<open>
  The three invocations. Each result is an \<open>outcome\<close>, so that an exception leaving the
  method would be a value \<open>Raises\<close> of it. What \<open>run_postprocessor\<close> returns is a Python
  value that its caller tests against \<open>None\<close>, hence an option; the response object it
  falls back to is never \<open>None\<close>.
\<close>

definition run_preprocessor ::
  "registry \<Rightarrow> string \<Rightarrow> store \<Rightarrow> api_config \<Rightarrow> pydict \<Rightarrow> api_config outcome \<times> store \<times> event list" where
  "run_preprocessor reg name st api_config kwargs =
     (case preprocessors reg name of
        None \<Rightarrow> (Returns api_config, st, [Log Error (''Preprocessor not found: '' @ name)])
      | Some f \<Rightarrow>
          (case f st api_config kwargs of
             (Returns result, st') \<Rightarrow>
               (Returns (case result of Some r \<Rightarrow> r | None \<Rightarrow> api_config), st',
                [Invoked Preprocessor name])
           | (Raises e, st') \<Rightarrow>
               (Returns api_config, st',
                [Invoked Preprocessor name,
                 Log Error (''Error running preprocessor '' @ name @ '': '' @ exc_str e)])))"

definition run_postprocessor ::
  "registry \<Rightarrow> string \<Rightarrow> response \<Rightarrow> pydict \<Rightarrow> pdata option outcome \<times> event list" where
  "run_postprocessor reg name response kwargs =
     (case postprocessors reg name of
        None \<Rightarrow>
          (Returns (Some (PResponse response)), [Log Error (''Postprocessor not found: '' @ name)])
      | Some f \<Rightarrow>
          (case f response kwargs of
             Returns result \<Rightarrow>
               (Returns (Some (case result of Some r \<Rightarrow> r | None \<Rightarrow> PResponse response)),
                [Invoked Postprocessor name])
           | Raises e \<Rightarrow>
               (Returns (Some (PResponse response)),
                [Invoked Postprocessor name,
                 Log Error (''Error running postprocessor '' @ name @ '': '' @ exc_str e)])))"

definition run_output_processor ::
  "registry \<Rightarrow> string \<Rightarrow> pdata \<Rightarrow> string option \<Rightarrow> pydict \<Rightarrow> bool outcome \<times> event list" where
  "run_output_processor reg name data endpoint kwargs =
     (case output_processors reg name of
        None \<Rightarrow> (Returns False, [Log Error (''Output processor not found: '' @ name)])
      | Some f \<Rightarrow>
          (case f data endpoint kwargs of
             Returns ok \<Rightarrow> (Returns ok, [Invoked OutputSink name])
           | Raises e \<Rightarrow>
               (Returns False,
                [Invoked OutputSink name,
                 Log Error (''Error running output processor '' @ name @ '': '' @ exc_str e)])))"

section \<open>The OAuth handler (oauth_handler.py)\<close>

text \<open>
  Times are counted in microseconds, the resolution of \<^verbatim>\<open>datetime\<close>; the cached
  token and its expiry are \<open>None\<close> until a token was obtained.
\<close>

record oauth_handler =
  token_url :: string
  token :: "json option"
  token_expiry :: "int option"
  token_type :: string

definition seconds :: "int \<Rightarrow> int" where
  "seconds n = n * 1000000"

definition hours :: "int \<Rightarrow> int" where
  "hours n = seconds (n * 3600)"

text \<open>
  The answer of the token endpoint: the request raises, or there is a response with a
  status, a body and, when the body parses, the JSON document in it.
\<close>

record token_response =
  tr_status :: int
  tr_text :: string
  tr_json :: "json option"

definition lower_char :: "char \<Rightarrow> char" where
  "lower_char c =
     (let n = (of_char c :: nat) in if 65 \<le> n \<and> n \<le> 90 then char_of (n + 32) else c)"

definition lower :: "string \<Rightarrow> string" where
  "lower s = map lower_char s"

definition failed_token :: "oauth_handler \<Rightarrow> oauth_handler" where
  "failed_token h = h\<lparr>token := None, token_expiry := None\<rparr>"

text \<open>
  \<open>_request_new_token\<close>: one POST to the token endpoint. Every exception inside (the
  request itself, a body that is not a JSON object, an \<^verbatim>\<open>expires_in\<close> that is not
  a number, a \<^verbatim>\<open>token_type\<close> that is not a string) ends in the handler that clears
  the token and its expiry; the message of such a built-in exception is cut down to the
  name of its class.
\<close>

fun timedelta_seconds :: "json \<Rightarrow> int option" where
  "timedelta_seconds (JInt n) = Some (seconds n)"
| "timedelta_seconds (JBool b) = Some (seconds (if b then 1 else 0))"
| "timedelta_seconds _ = None"

definition request_new_token ::
  "token_response outcome \<Rightarrow> int \<Rightarrow> oauth_handler \<Rightarrow> oauth_handler \<times> event list" where
  "request_new_token reply now h =
     (let asked = [Log Info (''Requesting new OAuth token from '' @ token_url h), TokenRequest] in
      case reply of
        Raises e \<Rightarrow>
          (failed_token h, asked @ [Log Error (''Error getting OAuth token: '' @ exc_str e)])
      | Returns r \<Rightarrow>
          if tr_status r = 200 then
            (case tr_json r of
               Some (JDict token_data) \<Rightarrow>
                 (let access = (case dict_get token_data ''access_token'' of
                                  Some JNull \<Rightarrow> None | a \<Rightarrow> a);
                      expires_in = (case dict_get token_data ''expires_in'' of
                                      None \<Rightarrow> JInt 3600 | Some v \<Rightarrow> v);
                      ttype = (case dict_get token_data ''token_type'' of
                                 None \<Rightarrow> JStr ''bearer'' | Some v \<Rightarrow> v)
                  in case timedelta_seconds expires_in of
                       None \<Rightarrow>
                         (failed_token h,
                          asked @ [Log Error ''Error getting OAuth token: TypeError''])
                     | Some d \<Rightarrow>
                         (case ttype of
                            JStr t \<Rightarrow>
                              (h\<lparr>token := access, token_expiry := Some (now + d),
                                 token_type := lower t\<rparr>,
                               asked @ [Log Info (''OAuth token obtained successfully, expires in ''
                                                  @ py_str expires_in @ '' seconds'')])
                          | _ \<Rightarrow>
                              (failed_token h,
                               asked @ [Log Error ''Error getting OAuth token: AttributeError''])))
             | _ \<Rightarrow>
                 (failed_token h, asked @ [Log Error ''Error getting OAuth token: ValueError'']))
          else
            (failed_token h,
             asked @ [Log Error (''Failed to get OAuth token. Status: '' @ str_int (tr_status r)
                                 @ '', Response: '' @ tr_text r)]))"

text \<open>
  \<open>get_token\<close>, with the reading of the clock as an argument: the token is requested when
  there is none, when no expiry is recorded, or when the time in four hours is not before
  the expiry.
\<close>

definition needs_refresh :: "int \<Rightarrow> oauth_handler \<Rightarrow> bool" where
  "needs_refresh current_time h =
     (token h = None
      \<or> (case token_expiry h of None \<Rightarrow> True | Some e \<Rightarrow> current_time + hours 4 \<ge> e))"

definition get_token ::
  "token_response outcome \<Rightarrow> int \<Rightarrow> oauth_handler \<Rightarrow> json option \<times> oauth_handler \<times> event list" where
  "get_token reply current_time h =
     (if needs_refresh current_time h
      then (let (h', evs) = request_new_token reply current_time h in (token h', h', evs))
      else (token h, h, []))"

section \<open>The API handler (api_handler.py)\<close>

text \<open>
  The authentication details: the dictionary main.py builds for basic authentication
  (user name and password) or for a static bearer token, or the OAuth handler object.
\<close>

datatype auth_handler =
    Basic "json option" "json option"
  | Bearer "json option"
  | OAuth

record api_handler =
  auth :: auth_handler
  proxies :: "string option"
  self_verify :: bool

text \<open>
  What the program does not decide: the transport (asked with the number of requests sent
  before and the request; \<open>Raises\<close> is a connection error or a timeout), the token
  endpoint, the file system (\<open>makedirs\<close> and opening a file for writing may raise), the
  text of a time stamp, and the directory of the artifacts.
\<close>

record env =
  transport :: "nat \<Rightarrow> request \<Rightarrow> response outcome"
  token_server :: "token_response outcome"
  makedirs :: "py_exception option"
  open_file :: "string \<Rightarrow> py_exception option"
  strftime :: "int \<Rightarrow> string"
  log_dir :: string

text \<open>
  The state the calls work on: the store of the nested dictionaries, the OAuth handler,
  the clock, the number of requests sent and the trace of the effects so far.
\<close>

record world =
  w_store :: store
  w_oauth :: oauth_handler
  w_clock :: int
  w_sent :: nat
  w_trace :: "event list"

definition emit :: "event list \<Rightarrow> world \<Rightarrow> world" where
  "emit evs w = w\<lparr>w_trace := w_trace w @ evs\<rparr>"

definition opt_str :: "string option \<Rightarrow> string" where
  "opt_str s = (case s of None \<Rightarrow> ''None'' | Some t \<Rightarrow> t)"

definition opt_json_str :: "json option \<Rightarrow> string" where
  "opt_json_str v = (case v of None \<Rightarrow> ''None'' | Some j \<Rightarrow> py_str j)"

definition prepare_headers :: "env \<Rightarrow> api_handler \<Rightarrow> world \<Rightarrow> pydict \<times> world" where
  "prepare_headers ev self w =
     (let headers = [(''Content-Type'', JStr ''application/json'')] in
      case auth self of
        Basic u p \<Rightarrow> (headers, w)
      | Bearer t \<Rightarrow> (dict_set headers ''Authorization'' (JStr (''Bearer '' @ opt_json_str t)), w)
      | OAuth \<Rightarrow>
          (let (tok, h', evs) = get_token (token_server ev) (w_clock w) (w_oauth w);
               w' = emit evs (w\<lparr>w_oauth := h'\<rparr>)
           in case tok of
                None \<Rightarrow> (headers, w')
              | Some t \<Rightarrow>
                  if truthy t
                  then (dict_set headers ''Authorization'' (JStr (''Bearer '' @ py_str t)), w')
                  else (headers, w')))"

definition get_auth :: "api_handler \<Rightarrow> (json option \<times> json option) option" where
  "get_auth self = (case auth self of Basic u p \<Rightarrow> Some (u, p) | _ \<Rightarrow> None)"

subsection \<open>Default persistence\<close>

definition newline :: string where
  "newline = [CHR 0x0A]"

definition endpoint_name :: "string \<Rightarrow> string" where
  "endpoint_name endpoint = replace (replace (last (split CHR ''/'' endpoint)) ''?'' ''_'') ''&'' ''_''"

definition pdata_str :: "pdata \<Rightarrow> string" where
  "pdata_str d =
     (case d of PJson j \<Rightarrow> py_str j
      | PResponse r \<Rightarrow> ''<Response ['' @ str_int (status_code r) @ '']>'')"

text \<open>
  \<^verbatim>\<open>"\n".join(v)\<close>: the elements of a list, all of them strings; the characters of
  a string; the keys of a dictionary; a \<^verbatim>\<open>TypeError\<close> otherwise.
\<close>

fun json_strings :: "json list \<Rightarrow> string list option" where
  "json_strings [] = Some []"
| "json_strings (JStr s # xs) = map_option ((#) s) (json_strings xs)"
| "json_strings (_ # xs) = None"

fun join_lines :: "json \<Rightarrow> string option" where
  "join_lines (JList xs) = map_option (join newline) (json_strings xs)"
| "join_lines (JStr s) = Some (join newline (map (\<lambda>c. [c]) s))"
| "join_lines (JDict kvs) = Some (join newline (map fst kvs))"
| "join_lines _ = None"

text \<open>
  The body of the \<^verbatim>\<open>with open(...)\<close> block of \<open>_save_response\<close>: what is
  written, by the type of the data, in the order of the source's tests.
\<close>

definition file_content :: "pdata \<Rightarrow> bool \<Rightarrow> int option \<Rightarrow> content outcome" where
  "file_content response_data is_error status =
     (case response_data of
        PJson (JDict d) \<Rightarrow>
          (case dict_get d ''__flatten_json_output'' of
             Some v \<Rightarrow>
               (case v of JStr s \<Rightarrow> Returns (Written s)
                | _ \<Rightarrow> Raises (PyException ''write() argument must be str''))
           | None \<Rightarrow>
               (case dict_get d ''__split_json_output'' of
                  Some v \<Rightarrow>
                    (case join_lines v of Some s \<Rightarrow> Returns (Written s)
                     | None \<Rightarrow> Raises (PyException ''can only join strings''))
                | None \<Rightarrow> Returns (JsonDump d)))
      | PJson (JStr s) \<Rightarrow> Returns (Written s)
      | _ \<Rightarrow>
          (case status of
             Some sc \<Rightarrow>
               if is_error \<and> sc \<noteq> 0
               then Returns (Written (''Status code: '' @ str_int sc @ newline
                                      @ ''Response: '' @ pdata_str response_data @ newline))
               else Returns (Written (pdata_str response_data))
           | None \<Rightarrow> Returns (Written (pdata_str response_data))))"

text \<open>
  \<open>_save_response\<close>. The directory is made and the file name is built before the
  \<^verbatim>\<open>try\<close>, so an exception there leaves the method; one raised while the file is
  opened or written is caught and logged.
\<close>

definition save_response ::
  "env \<Rightarrow> world \<Rightarrow> string option \<Rightarrow> pdata \<Rightarrow> bool \<Rightarrow> int option \<Rightarrow> unit outcome \<times> world" where
  "save_response ev w endpoint response_data is_error status =
     (case makedirs ev of
        Some e \<Rightarrow> (Raises e, w)
      | None \<Rightarrow>
          (case endpoint of
             None \<Rightarrow> (Raises (PyException ''AttributeError''), w)
           | Some ep \<Rightarrow>
               (let timestamp = strftime ev (w_clock w);
                    filename = (if is_error
                                then ''error_'' @ endpoint_name ep @ ''_'' @ timestamp @ ''.log''
                                else endpoint_name ep @ ''_'' @ timestamp @ ''.log'');
                    file_path = log_dir ev @ ''/'' @ filename;
                    failed = (\<lambda>e. Log Error (''Failed to save '' @ (if is_error then ''error '' else [])
                                               @ ''response from '' @ ep @ '': '' @ exc_str e))
                in case open_file ev file_path of
                     Some e \<Rightarrow> (Returns (), emit [failed e] w)
                   | None \<Rightarrow>
                       (case file_content response_data is_error status of
                          Raises e \<Rightarrow>
                            (Returns (), emit [FileWritten file_path (Written []), failed e] w)
                        | Returns c \<Rightarrow>
                            (Returns (),
                             emit [FileWritten file_path c,
                                   Log Info ((if is_error then ''Error '' else [])
                                             @ ''Response from '' @ ep @ '' saved to '' @ file_path)]
                               w)))))"

subsection \<open>One call\<close>

definition and_then ::
  "'a outcome \<times> world \<Rightarrow> ('a \<Rightarrow> world \<Rightarrow> 'b outcome \<times> world) \<Rightarrow> 'b outcome \<times> world" where
  "and_then m f = (case m of (Raises e, w) \<Rightarrow> (Raises e, w) | (Returns a, w) \<Rightarrow> f a w)"

text \<open>
  The name of a configured hook: the \<^verbatim>\<open>name\<close> of a hook dictionary, when it is
  there and not empty.
\<close>

definition hook_of :: "hook option \<Rightarrow> (string \<times> pydict) option" where
  "hook_of h =
     (case h of None \<Rightarrow> None
      | Some c \<Rightarrow> (case hook_name c of None \<Rightarrow> None
                   | Some n \<Rightarrow> if n = [] then None else Some (n, hook_args c)))"

text \<open>The preprocessing step, which stands before the \<^verbatim>\<open>try\<close> of the method.\<close>

definition apply_preprocess :: "registry \<Rightarrow> world \<Rightarrow> api_config \<Rightarrow> api_config outcome \<times> world" where
  "apply_preprocess reg w api_config =
     (case hook_of (preprocess api_config) of
        None \<Rightarrow> (Returns api_config, w)
      | Some (preprocess_name, preprocess_args) \<Rightarrow>
          (let w1 = emit [Log Info (''Running preprocessor: '' @ preprocess_name)] w in
           if kwargs_clash [''self'', ''name'', ''api_config''] preprocess_args
           then (Raises (clash_error ''run_preprocessor''), w1)
           else (let (r, st', evs) =
                       run_preprocessor reg preprocess_name (w_store w1) api_config preprocess_args
                 in (r, emit evs (w1\<lparr>w_store := st'\<rparr>)))))"

definition build_request :: "env \<Rightarrow> api_handler \<Rightarrow> world \<Rightarrow> api_config \<Rightarrow> request \<times> world" where
  "build_request ev self w api_config =
     (let method' = upper (case http_method api_config of None \<Rightarrow> ''GET'' | Some m \<Rightarrow> m);
          params' = deref (w_store w) (params api_config);
          custom_headers = deref (w_store w) (headers api_config);
          body' = (case body api_config of
                     None \<Rightarrow> JDict []
                   | Some (BodyRef a) \<Rightarrow> JDict (deref (w_store w) (Some a))
                   | Some (BodyStr b) \<Rightarrow> JStr b);
          verify' = (case verify api_config of None \<Rightarrow> self_verify self | Some v \<Rightarrow> v);
          (default_headers, w') = prepare_headers ev self w
      in (\<lparr>req_method = method', req_url = url api_config, req_params = params',
           req_headers = dict_update default_headers custom_headers,
           req_json = (if truthy body' then Some body' else None),
           req_auth = get_auth self, req_proxies = proxies self,
           req_verify = verify', req_timeout = 30\<rparr>, w'))"

text \<open>
  The response of a successful call is parsed and handed to the postprocessor. The branch
  for a result \<open>None\<close> is the one of the source.
\<close>

definition reparse :: "response \<Rightarrow> pdata" where
  "reparse response =
     (case json_body response of Some j \<Rightarrow> PJson j | None \<Rightarrow> PJson (JStr (resp_text response)))"

definition process_response ::
  "registry \<Rightarrow> world \<Rightarrow> api_config \<Rightarrow> response \<Rightarrow> pdata outcome \<times> world" where
  "process_response reg w api_config response =
     (case json_body response of
        None \<Rightarrow> (Returns (PJson (JStr (resp_text response))), w)
      | Some response_data \<Rightarrow>
          (case hook_of (postprocess api_config) of
             None \<Rightarrow> (Returns (PJson response_data), w)
           | Some (postprocess_name, postprocess_args) \<Rightarrow>
               (let w1 = emit [Log Info (''Running postprocessor: '' @ postprocess_name)] w in
                if kwargs_clash [''self'', ''name'', ''response''] postprocess_args
                then (Raises (clash_error ''run_postprocessor''), w1)
                else (let (r, evs) = run_postprocessor reg postprocess_name response postprocess_args
                      in and_then (r, emit evs w1)
                           (\<lambda>post_result w2.
                              case post_result of
                                Some d \<Rightarrow> (Returns d, w2)
                              | None \<Rightarrow>
                                  (Returns (reparse response),
                                   emit [Log Warning (''Postprocessor '' @ postprocess_name
                                      @ '' returned None or failed. Using original response data.'')]
                                     w2))))))"

text \<open>The output stage: whether an output processor took over the saving.\<close>

definition apply_output ::
  "registry \<Rightarrow> world \<Rightarrow> api_config \<Rightarrow> pdata \<Rightarrow> bool outcome \<times> world" where
  "apply_output reg w api_config processed_data =
     (case hook_of (output_hook api_config) of
        None \<Rightarrow> (Returns False, w)
      | Some (output_name, output_args) \<Rightarrow>
          (let w1 = emit [Log Info (''Running output processor: '' @ output_name)] w in
           if kwargs_clash [''self'', ''name'', ''data'', ''endpoint''] output_args
           then (Raises (clash_error ''run_output_processor''), w1)
           else (let (r, evs) =
                       run_output_processor reg output_name processed_data (url api_config) output_args
                 in (r, emit evs w1))))"

text \<open>The body of the \<^verbatim>\<open>try\<close> of \<open>call_single_api\<close>, after the request is built.\<close>

definition send_and_save ::
  "env \<Rightarrow> registry \<Rightarrow> world \<Rightarrow> api_config \<Rightarrow> request \<Rightarrow> response outcome \<times> world" where
  "send_and_save ev reg w api_config req =
     (let w1 = emit [Log Info (''Calling '' @ req_method req @ '' '' @ opt_str (url api_config)),
                     Sent req] (w\<lparr>w_sent := w_sent w + 1\<rparr>)
      in case transport ev (w_sent w) req of
           Raises e \<Rightarrow> (Raises e, w1)
         | Returns response \<Rightarrow>
             (let w2 = emit [Log Info (''Response status: '' @ str_int (status_code response))] w1 in
              if status_code response \<ge> 400
              then and_then (save_response ev w2 (url api_config) (PJson (JStr (resp_text response)))
                               True (Some (status_code response)))
                     (\<lambda>_ w3. (Returns response, w3))
              else and_then (process_response reg w2 api_config response)
                     (\<lambda>processed_data w3.
                        and_then (apply_output reg w3 api_config processed_data)
                          (\<lambda>success w4.
                             if success then (Returns response, w4)
                             else and_then (save_response ev w4 (url api_config) processed_data
                                              False None)
                                    (\<lambda>_ w5. (Returns response, w5))))))"

definition call_single_api ::
  "env \<Rightarrow> registry \<Rightarrow> api_handler \<Rightarrow> world \<Rightarrow> api_config \<Rightarrow> response option outcome \<times> world" where
  "call_single_api ev reg self w api_config0 =
     and_then (apply_preprocess reg w api_config0)
       (\<lambda>api_config w1.
          let (req, w2) = build_request ev self w1 api_config in
          case send_and_save ev reg w2 api_config req of
            (Returns response, w3) \<Rightarrow> (Returns (Some response), w3)
          | (Raises e, w3) \<Rightarrow>
              (Returns None,
               emit [Log Error (''Error calling '' @ opt_str (url api_config) @ '': '' @ exc_str e)]
                 w3))"

subsection \<open>Nested calls\<close>

text \<open>
  The walk along \<^verbatim>\<open>items_path\<close>; \<open>Inl\<close> carries the error that is logged when the
  walk gives up.
\<close>

fun navigate :: "string \<Rightarrow> string list \<Rightarrow> json \<Rightarrow> string + json" where
  "navigate path [] target_data = Inr target_data"
| "navigate path (part # parts) target_data =
     (if part = [] then navigate path parts target_data
      else
        (let not_found = Inl (''Cannot find '' @ [CHR 0x27] @ part @ [CHR 0x27]
                              @ '' in response at path '' @ [CHR 0x27] @ path @ [CHR 0x27])
         in case target_data of
              JDict d \<Rightarrow>
                (case dict_get d part of
                   Some v \<Rightarrow> navigate path parts v
                 | None \<Rightarrow> not_found)
            | JList xs \<Rightarrow>
                if isdigit part
                then (let idx = int_of_digits part in
                      if idx < length xs then navigate path parts (xs ! idx)
                      else Inl (''Index '' @ str_nat idx @ '' out of range in items_path''))
                else not_found
            | _ \<Rightarrow> not_found))"

definition items_to_process :: "string option \<Rightarrow> json \<Rightarrow> json list \<times> event list" where
  "items_to_process path target_data =
     (case target_data of
        JList xs \<Rightarrow>
          (xs, [Log Info (''Processing list of '' @ str_nat (length xs) @ '' items from parent API'')])
      | JDict d \<Rightarrow> ([JDict d], [Log Info ''Processing single dictionary item from parent API''])
      | _ \<Rightarrow>
          (let key_name = (case path of
                             None \<Rightarrow> ''value''
                           | Some p \<Rightarrow> if p = [] then ''value'' else last (split CHR ''.'' p))
           in ([JDict [(key_name, target_data)]],
               [Log Info (''Processing primitive value '' @ [CHR 0x27] @ py_str target_data
                          @ [CHR 0x27] @ '' as dictionary with key '' @ [CHR 0x27] @ key_name
                          @ [CHR 0x27])])))"

text \<open>
  One pass of the substitution: for every field of the dictionary, in its order, the
  placeholder of the field is replaced by the text of its value where the URL has it.
\<close>

definition substitute :: "string \<Rightarrow> pydict \<Rightarrow> string" where
  "substitute url0 d =
     foldl (\<lambda>u (key, val). let placeholder = ''{'' @ key @ ''}''
                             in if contains u placeholder then replace u placeholder (py_str val) else u)
       url0 d"

text \<open>The test of the source for placeholders left in a URL.\<close>

definition has_braces :: "string \<Rightarrow> bool" where
  "has_braces u = (CHR ''{'' \<in> set u \<and> CHR ''}'' \<in> set u)"

text \<open>
  The URL of a child call for an item: the fields of the item first, and, if the test
  still finds braces, the fields of the parent response when that is a dictionary.
\<close>

definition resolve_url :: "json \<Rightarrow> pydict \<Rightarrow> string \<Rightarrow> string \<times> event list" where
  "resolve_url parent_data item url0 =
     (let u = substitute url0 item in
      if has_braces u
      then (case parent_data of JDict pd \<Rightarrow> substitute u pd | _ \<Rightarrow> u,
            [Log Warning (''Some placeholders not replaced in URL: '' @ u)])
      else (u, []))"

text \<open>
  The inner loop over the child configurations, for one item. An exception that leaves a
  child call ends the loop, as it leaves the \<^verbatim>\<open>for\<close> statements of the source.
\<close>

fun children_loop ::
  "env \<Rightarrow> registry \<Rightarrow> api_handler \<Rightarrow> json \<Rightarrow> pydict \<Rightarrow> world \<Rightarrow> api_config list
   \<Rightarrow> unit outcome \<times> world" where
  "children_loop ev reg self parent_data item w [] = (Returns (), w)"
| "children_loop ev reg self parent_data item w (child_config # rest) =
     (let child_api = child_config;
          original_url = (case url child_api of None \<Rightarrow> [] | Some u \<Rightarrow> u);
          (u, evs) = resolve_url parent_data item original_url;
          w1 = emit evs w
      in if has_braces u
         then children_loop ev reg self parent_data item
                (emit [Log Error (''Unresolved placeholders in URL: '' @ u
                                  @ ''. Skipping this child API call.'')] w1) rest
         else
           (let child_api' = child_api\<lparr>url := Some u\<rparr>;
                w2 = emit [Log Info (''Calling child API: '' @ u @ '' (original: ''
                                     @ original_url @ '')'')] w1
            in case call_single_api ev reg self w2 child_api' of
                 (Raises e, w3) \<Rightarrow> (Raises e, w3)
               | (Returns r, w3) \<Rightarrow>
                   (let interval' = (case interval child_api' of None \<Rightarrow> 1 | Some i \<Rightarrow> i);
                        w4 = (if interval' > 0
                              then emit [Slept interval']
                                     (w3\<lparr>w_clock := w_clock w3 + seconds interval'\<rparr>)
                              else w3)
                    in children_loop ev reg self parent_data item w4 rest)))"

fun items_loop ::
  "env \<Rightarrow> registry \<Rightarrow> api_handler \<Rightarrow> json \<Rightarrow> api_config list \<Rightarrow> world \<Rightarrow> json list
   \<Rightarrow> unit outcome \<times> world" where
  "items_loop ev reg self parent_data child_api_configs w [] = (Returns (), w)"
| "items_loop ev reg self parent_data child_api_configs w (item # items) =
     (let (item', evs) =
            (case item of
               JDict d \<Rightarrow> (d, [])
             | _ \<Rightarrow> ([(''item'', item)],
                     [Log Warning (''Item is not a dictionary: '' @ py_str item
                                   @ ''. Creating a default key.'')]));
          w1 = emit (evs @ [Log Debug (''Processing item: '' @ py_str (JDict item'))]) w
      in case children_loop ev reg self parent_data item' w1 child_api_configs of
           (Raises e, w2) \<Rightarrow> (Raises e, w2)
         | (Returns r, w2) \<Rightarrow> items_loop ev reg self parent_data child_api_configs w2 items)"

text \<open>The body of the \<^verbatim>\<open>try\<close> of \<open>call_nested_apis\<close>.\<close>

definition process_parent ::
  "env \<Rightarrow> registry \<Rightarrow> api_handler \<Rightarrow> world \<Rightarrow> api_config \<Rightarrow> api_config list \<Rightarrow> response
   \<Rightarrow> unit outcome \<times> world" where
  "process_parent ev reg self w parent_api_config child_api_configs parent_response =
     (case json_body parent_response of
        None \<Rightarrow> (Raises (PyException ''ValueError''), w)
      | Some parent_data \<Rightarrow>
          (let w1 = emit [Log Error (''Parent API response: '' @ py_str parent_data @ ''.'')] w;
               items_path' = (case items_path parent_api_config of None \<Rightarrow> [] | Some p \<Rightarrow> p)
           in case (if items_path' \<noteq> []
                    then navigate items_path' (split CHR ''.'' items_path') parent_data
                    else Inr parent_data) of
                Inl msg \<Rightarrow> (Returns (), emit [Log Error msg] w1)
              | Inr target_data \<Rightarrow>
                  (let (items, evs) = items_to_process (items_path parent_api_config) target_data
                   in items_loop ev reg self parent_data child_api_configs (emit evs w1) items)))"

definition call_nested_apis ::
  "env \<Rightarrow> registry \<Rightarrow> api_handler \<Rightarrow> world \<Rightarrow> api_config \<Rightarrow> api_config list
   \<Rightarrow> unit outcome \<times> world" where
  "call_nested_apis ev reg self w parent_api_config child_api_configs =
     and_then (call_single_api ev reg self w parent_api_config)
       (\<lambda>parent_response w1.
          let failed = (Returns (),
                        emit [Log Error (''Failed to get response from parent API ''
                                         @ opt_str (url parent_api_config))] w1)
          in case parent_response of
               None \<Rightarrow> failed
             | Some r \<Rightarrow>
                 if status_code r \<ge> 400 then failed
                 else (case process_parent ev reg self w1 parent_api_config child_api_configs r of
                         (Raises e, w2) \<Rightarrow>
                           (Returns (),
                            emit [Log Error (''Error processing nested APIs: '' @ exc_str e),
                                  Log Error ''Traceback (most recent call last)''] w2)
                       | (Returns u, w2) \<Rightarrow> (Returns (), w2)))"

section \<open>A built-in preprocessor (processors.py)\<close>

text \<open>
  \<open>preprocess_add_headers\<close>. \<^verbatim>\<open>api_config.copy()\<close> copies the keys, so the copy
  holds the address of the same \<^verbatim>\<open>headers\<close> dictionary, and
  \<^verbatim>\<open>updated_config['headers'].update(headers)\<close> writes into that object. A
  \<^verbatim>\<open>headers\<close> argument that is not a dictionary makes the body raise; the handler
  returns the configuration as it was given. (What the function logs is left out.)
\<close>

definition preprocess_add_headers :: preprocessor_fn where
  "preprocess_add_headers st api_config kwargs =
     (let updated_config = api_config;
          (st1, updated_config1) =
            (case headers updated_config of
               None \<Rightarrow> (st @ [[]], updated_config\<lparr>headers := Some (length st)\<rparr>)
             | Some a \<Rightarrow> (st, updated_config))
      in case (case dict_get kwargs ''headers'' of None \<Rightarrow> JDict [] | Some v \<Rightarrow> v) of
           JDict hs \<Rightarrow>
             (case headers updated_config1 of
                Some a \<Rightarrow> (Returns (Some updated_config1), st1[a := dict_update (st1 ! a) hs])
              | None \<Rightarrow> (Returns (Some updated_config1), st1))
         | _ \<Rightarrow> (Returns (Some api_config), st1))"

section \<open>Concrete inputs\<close>

definition empty_registry :: registry where
  "empty_registry =
     \<lparr>preprocessors = Map.empty, postprocessors = Map.empty, output_processors = Map.empty\<rparr>"

definition empty_config :: api_config where
  "empty_config =
     \<lparr>url = None, http_method = None, params = None, headers = None, body = None, verify = None,
      interval = None, items_path = None, preprocess = None, postprocess = None,
      output_hook = None\<rparr>"

definition boom :: py_exception where
  "boom = PyException ''boom''"

text \<open>A registry whose three processors named \<open>fail\<close> raise.\<close>

definition failing_registry :: registry where
  "failing_registry =
     \<lparr>preprocessors = [''fail'' \<mapsto> (\<lambda>st c kw. (Raises boom, st))],
      postprocessors = [''fail'' \<mapsto> (\<lambda>r kw. Raises boom), ''none'' \<mapsto> (\<lambda>r kw. Returns None)],
      output_processors = [''fail'' \<mapsto> (\<lambda>d e kw. Raises boom)]\<rparr>"

definition ok_response :: "string \<Rightarrow> json \<Rightarrow> response" where
  "ok_response raw j = \<lparr>status_code = 200, resp_text = raw, json_body = Some j\<rparr>"

text \<open>
  A server that answers the URL \<open>/parent\<close> with the given document and any other URL
  with an empty JSON object, on a file system that works.
\<close>

definition parent_server :: "string \<Rightarrow> json \<Rightarrow> env" where
  "parent_server raw j =
     \<lparr>transport = (\<lambda>n req. if req_url req = Some ''/parent'' then Returns (ok_response raw j)
                              else Returns (ok_response ''{}'' (JDict []))),
      token_server = Raises boom,
      makedirs = None,
      open_file = (\<lambda>path. None),
      strftime = (\<lambda>t. ''20240101_000000''),
      log_dir = ''/app/logs''\<rparr>"

definition basic_handler :: api_handler where
  "basic_handler =
     \<lparr>auth = Basic (Some (JStr ''user'')) (Some (JStr ''secret'')), proxies = None,
      self_verify = True\<rparr>"

definition no_token :: oauth_handler where
  "no_token = \<lparr>token_url = ''/token'', token = None, token_expiry = None, token_type = ''bearer''\<rparr>"

definition start_world :: "store \<Rightarrow> world" where
  "start_world st = \<lparr>w_store = st, w_oauth = no_token, w_clock = 0, w_sent = 0, w_trace = []\<rparr>"

definition items_doc :: json where
  "items_doc = JDict [(''items'', JList [JDict [(''id'', JInt 1)], JDict [(''id'', JInt 2)]])]"

definition items_raw :: string where
  \<open>items_raw = ''{"items":[{"id":1},{"id":2}]}''\<close>

definition id_doc :: json where
  "id_doc = JDict [(''id'', JInt 7)]"

definition id_raw :: string where
  \<open>id_raw = ''{"id": 7}''\<close>

definition parent_config :: "string option \<Rightarrow> api_config" where
  "parent_config path = empty_config\<lparr>url := Some ''/parent'', items_path := path\<rparr>"

definition child_config :: "string \<Rightarrow> api_config" where
  "child_config u = empty_config\<lparr>url := Some u\<rparr>"

text \<open>The URLs of the requests in a trace, in the order they were sent.\<close>

fun sent_urls :: "event list \<Rightarrow> string option list" where
  "sent_urls [] = []"
| "sent_urls (Sent req # evs) = req_url req # sent_urls evs"
| "sent_urls (_ # evs) = sent_urls evs"

fun token_requests :: "event list \<Rightarrow> nat" where
  "token_requests [] = 0"
| "token_requests (TokenRequest # evs) = Suc (token_requests evs)"
| "token_requests (_ # evs) = token_requests evs"

definition fresh_token :: oauth_handler where
  "fresh_token = no_token\<lparr>token := Some (JStr ''abc''), token_expiry := Some (hours 10)\<rparr>"

definition named_hook :: "string \<Rightarrow> pydict \<Rightarrow> hook option" where
  "named_hook n kw = Some \<lparr>hook_name = Some n, hook_args = kw\<rparr>"

text \<open>A server that answers every request with status 404 and a body that is not JSON.\<close>

definition not_found :: response where
  "not_found = \<lparr>status_code = 404, resp_text = ''no such page'', json_body = None\<rparr>"

definition error_server :: env where
  "error_server = (parent_server [] JNull)\<lparr>transport := (\<lambda>n req. Returns not_found)\<rparr>"

text \<open>A call whose postprocessor and output processor are both configured.\<close>

definition hooked_config :: "string \<Rightarrow> string \<Rightarrow> api_config" where
  "hooked_config post out =
     empty_config\<lparr>url := Some ''/parent'', postprocess := named_hook post [],
                  output_hook := named_hook out []\<rparr>"

definition post_config :: "string \<Rightarrow> api_config" where
  "post_config post = empty_config\<lparr>url := Some ''/parent'', postprocess := named_hook post []\<rparr>"

text \<open>
  A registry with \<open>add_headers\<close>, and a child configuration that asks for it; the
  \<^verbatim>\<open>headers\<close> dictionary of the configuration is the object at address 0.
\<close>

definition headers_registry :: registry where
  "headers_registry = empty_registry\<lparr>preprocessors := [''add_headers'' \<mapsto> preprocess_add_headers]\<rparr>"

definition authored_store :: store where
  "authored_store = [[(''Accept'', JStr ''text/plain'')]]"

definition headers_config :: "string \<Rightarrow> api_config" where
  "headers_config u =
     empty_config\<lparr>url := Some u, headers := Some 0,
                  preprocess := named_hook ''add_headers''
                                  [(''headers'', JDict [(''X-Extra'', JStr ''1'')])]\<rparr>"

section \<open>Observations on a run\<close>

text \<open>The files written and the processors invoked in a trace.\<close>

fun files_written :: "event list \<Rightarrow> (string \<times> content) list" where
  "files_written [] = []"
| "files_written (FileWritten path c # evs) = (path, c) # files_written evs"
| "files_written (_ # evs) = files_written evs"

fun invocations :: "event list \<Rightarrow> (hook_kind \<times> string) list" where
  "invocations [] = []"
| "invocations (Invoked k n # evs) = (k, n) # invocations evs"
| "invocations (_ # evs) = invocations evs"

text \<open>
  A step is quiet when it sends no request: the number of requests sent and the URLs of
  the requests in the trace are what they were.
\<close>

definition quiet :: "world \<Rightarrow> world \<Rightarrow> bool" where
  "quiet w w' = (w_sent w' = w_sent w \<and> sent_urls (w_trace w') = sent_urls (w_trace w))"

text \<open>A step that sends requests to the given URLs, in that order, and no others.\<close>

definition sends :: "string option list \<Rightarrow> world \<Rightarrow> world \<Rightarrow> bool" where
  "sends us w w' =
     (w_sent w' = w_sent w + length us \<and> sent_urls (w_trace w') = sent_urls (w_trace w) @ us)"

text \<open>
  The URL a child configuration gets for an item, the fields of an item, and the URLs of
  the child calls that are due for an item and for a list of items: those whose URL
  passes the test for placeholders.
\<close>

definition pair_url :: "json \<Rightarrow> pydict \<Rightarrow> api_config \<Rightarrow> string" where
  "pair_url parent_data item child =
     fst (resolve_url parent_data item (case url child of None \<Rightarrow> [] | Some u \<Rightarrow> u))"

definition pair_urls :: "json \<Rightarrow> pydict \<Rightarrow> api_config list \<Rightarrow> string option list" where
  "pair_urls parent_data item children =
     concat (map (\<lambda>c. if has_braces (pair_url parent_data item c) then []
                       else [Some (pair_url parent_data item c)]) children)"

definition item_fields :: "json \<Rightarrow> pydict" where
  "item_fields item = (case item of JDict d \<Rightarrow> d | _ \<Rightarrow> [(''item'', item)])"

definition nested_urls :: "json \<Rightarrow> api_config list \<Rightarrow> json list \<Rightarrow> string option list" where
  "nested_urls parent_data children items =
     concat (map (\<lambda>i. pair_urls parent_data (item_fields i) children) items)"

text \<open>
  The substitution as the specification words it: the fields of the item first, then the
  top-level fields of the parent response.
\<close>

definition both_passes :: "json \<Rightarrow> pydict \<Rightarrow> string \<Rightarrow> string" where
  "both_passes parent_data item url0 =
     (case parent_data of
        JDict pd \<Rightarrow> substitute (substitute url0 item) pd
      | _ \<Rightarrow> substitute url0 item)"

text \<open>The placeholder of a field, and the URL text of a configuration.\<close>

definition placeholder :: "string \<Rightarrow> string" where
  "placeholder field = ''{'' @ field @ ''}''"

definition url_text :: "api_config \<Rightarrow> string" where
  "url_text c = (case url c of None \<Rightarrow> [] | Some u \<Rightarrow> u)"

text \<open>What is logged when a pair is dropped.\<close>

definition drop_log :: "string \<Rightarrow> event" where
  "drop_log u = Log Error (''Unresolved placeholders in URL: '' @ u @ ''. Skipping this child API call.'')"

text \<open>The pause after a child call.\<close>

definition pause :: "api_config \<Rightarrow> world \<Rightarrow> world" where
  "pause c w =
     (let interval' = (case interval c of None \<Rightarrow> 1 | Some i \<Rightarrow> i)
      in if interval' > 0
         then emit [Slept interval'] (w\<lparr>w_clock := w_clock w + seconds interval'\<rparr>)
         else w)"

text \<open>
  The effects in a trace other than log entries and written files, and two worlds that
  differ in log entries and written files at most. Two results agree when they return or
  raise the same and leave such worlds.
\<close>

fun effects :: "event list \<Rightarrow> event list" where
  "effects [] = []"
| "effects (Log l m # evs) = effects evs"
| "effects (FileWritten path c # evs) = effects evs"
| "effects (e # evs) = e # effects evs"

definition same_run :: "world \<Rightarrow> world \<Rightarrow> bool" where
  "same_run w w' =
     (w_store w' = w_store w \<and> w_oauth w' = w_oauth w \<and> w_clock w' = w_clock w
      \<and> w_sent w' = w_sent w \<and> effects (w_trace w') = effects (w_trace w))"

definition agree :: "'a outcome \<times> world \<Rightarrow> 'a outcome \<times> world \<Rightarrow> bool" where
  "agree m m' = (fst m' = fst m \<and> same_run (snd m) (snd m'))"

text \<open>An environment in which every attempt to open or write a file fails.\<close>

definition disk_full :: "env \<Rightarrow> env" where
  "disk_full ev = ev\<lparr>open_file := (\<lambda>path. Some (PyException ''No space left on device''))\<rparr>"

text \<open>The path of the artifact of a call, and the entry logged when it cannot be written.\<close>

definition artifact_path :: "env \<Rightarrow> world \<Rightarrow> string \<Rightarrow> bool \<Rightarrow> string" where
  "artifact_path ev w ep is_error =
     log_dir ev @ ''/'' @ (if is_error then ''error_'' else []) @ endpoint_name ep @ ''_''
     @ strftime ev (w_clock w) @ ''.log''"

definition save_failed :: "string \<Rightarrow> bool \<Rightarrow> py_exception \<Rightarrow> event" where
  "save_failed ep is_error e =
     Log Error (''Failed to save '' @ (if is_error then ''error '' else []) @ ''response from ''
                @ ep @ '': '' @ exc_str e)"

section \<open>Properties of the registry\<close>

lemma run_preprocessor_returns: "\<exists>c. fst (run_preprocessor reg name st cfg kw) = Returns c"
  by (auto simp: run_preprocessor_def split: option.splits prod.splits outcome.splits)

lemma run_postprocessor_returns: "\<exists>d. fst (run_postprocessor reg name resp kw) = Returns d"
  by (auto simp: run_postprocessor_def split: option.splits outcome.splits)

lemma run_output_processor_returns: "\<exists>b. fst (run_output_processor reg name data ep kw) = Returns b"
  by (auto simp: run_output_processor_def split: option.splits outcome.splits)

text \<open>
  C5. No invocation through the registry lets an exception of a registered function reach
  the caller: each of the three methods returns. Under a name that is not registered, and
  when the registered function raises, \<open>run_preprocessor\<close> returns the configuration it
  was given, \<open>run_postprocessor\<close> returns the response it was given, and
  \<open>run_output_processor\<close> returns \<open>False\<close>.
\<close>

theorem registry_pass_through:
  "(\<exists>c. fst (run_preprocessor reg name st cfg kw) = Returns c)
   \<and> (\<exists>d. fst (run_postprocessor reg name resp kw) = Returns d)
   \<and> (\<exists>b. fst (run_output_processor reg name data ep kw) = Returns b)
   \<and> (preprocessors reg name = None \<longrightarrow>
        fst (run_preprocessor reg name st cfg kw) = Returns cfg
        \<and> fst (snd (run_preprocessor reg name st cfg kw)) = st)
   \<and> (postprocessors reg name = None \<longrightarrow>
        fst (run_postprocessor reg name resp kw) = Returns (Some (PResponse resp)))
   \<and> (output_processors reg name = None \<longrightarrow>
        fst (run_output_processor reg name data ep kw) = Returns False)
   \<and> (\<forall>f e st'. preprocessors reg name = Some f \<and> f st cfg kw = (Raises e, st') \<longrightarrow>
        fst (run_preprocessor reg name st cfg kw) = Returns cfg)
   \<and> (\<forall>f e. postprocessors reg name = Some f \<and> f resp kw = Raises e \<longrightarrow>
        fst (run_postprocessor reg name resp kw) = Returns (Some (PResponse resp)))
   \<and> (\<forall>f e. output_processors reg name = Some f \<and> f data ep kw = Raises e \<longrightarrow>
        fst (run_output_processor reg name data ep kw) = Returns False)"
proof -
  have unknown_pre: "preprocessors reg name = None \<longrightarrow>
        fst (run_preprocessor reg name st cfg kw) = Returns cfg
        \<and> fst (snd (run_preprocessor reg name st cfg kw)) = st"
    by (simp add: run_preprocessor_def)
  have unknown_post: "postprocessors reg name = None \<longrightarrow>
        fst (run_postprocessor reg name resp kw) = Returns (Some (PResponse resp))"
    by (simp add: run_postprocessor_def)
  have unknown_out: "output_processors reg name = None \<longrightarrow>
        fst (run_output_processor reg name data ep kw) = Returns False"
    by (simp add: run_output_processor_def)
  have raise_pre: "\<forall>f e st'. preprocessors reg name = Some f \<and> f st cfg kw = (Raises e, st') \<longrightarrow>
        fst (run_preprocessor reg name st cfg kw) = Returns cfg"
    by (simp add: run_preprocessor_def)
  have raise_post: "\<forall>f e. postprocessors reg name = Some f \<and> f resp kw = Raises e \<longrightarrow>
        fst (run_postprocessor reg name resp kw) = Returns (Some (PResponse resp))"
    by (simp add: run_postprocessor_def)
  have raise_out: "\<forall>f e. output_processors reg name = Some f \<and> f data ep kw = Raises e \<longrightarrow>
        fst (run_output_processor reg name data ep kw) = Returns False"
    by (simp add: run_output_processor_def)
  show ?thesis
    using run_preprocessor_returns run_postprocessor_returns run_output_processor_returns
      unknown_pre unknown_post unknown_out raise_pre raise_post raise_out
    by blast
qed

theorem registry_pass_through_witness:
  "fst (run_preprocessor failing_registry ''fail'' [] empty_config []) = Returns empty_config
   \<and> fst (run_preprocessor failing_registry ''absent'' [] empty_config []) = Returns empty_config
   \<and> fst (run_postprocessor failing_registry ''fail'' (ok_response id_raw id_doc) [])
       = Returns (Some (PResponse (ok_response id_raw id_doc)))
   \<and> fst (run_postprocessor failing_registry ''absent'' (ok_response id_raw id_doc) [])
       = Returns (Some (PResponse (ok_response id_raw id_doc)))
   \<and> fst (run_output_processor failing_registry ''fail'' (PJson id_doc) (Some ''/x'') []) = Returns False
   \<and> fst (run_output_processor failing_registry ''absent'' (PJson id_doc) (Some ''/x'') []) = Returns False"
  using registry_pass_through [of failing_registry "''fail''" "[]" empty_config "[]"
          "ok_response id_raw id_doc" "PJson id_doc" "Some ''/x''"]
        registry_pass_through [of failing_registry "''absent''" "[]" empty_config "[]"
          "ok_response id_raw id_doc" "PJson id_doc" "Some ''/x''"]
  by (simp add: failing_registry_def boom_def)

section \<open>Properties of the OAuth handler\<close>

lemma token_requests_new: "token_requests (snd (request_new_token reply now h)) = 1"
  by (simp add: request_new_token_def Let_def split: outcome.splits option.splits json.splits)

text \<open>
  C6. A call of \<open>get_token\<close> when no token is cached (or no expiry is recorded), or when
  the recorded expiry is less than four hours after the current time, makes exactly one
  token request. A call with a cached token whose expiry is more than four hours away
  makes none, changes nothing in the handler and returns the cached token.
\<close>

theorem get_token_refreshes_within_four_hours:
  "((token h = None \<or> token_expiry h = None
      \<or> (\<exists>e. token_expiry h = Some e \<and> e - now < hours 4))
     \<longrightarrow> token_requests (snd (snd (get_token reply now h))) = 1)
   \<and> ((\<exists>t e. token h = Some t \<and> token_expiry h = Some e \<and> e - now > hours 4)
     \<longrightarrow> get_token reply now h = (token h, h, []))"
proof (intro conjI impI)
  assume "token h = None \<or> token_expiry h = None \<or> (\<exists>e. token_expiry h = Some e \<and> e - now < hours 4)"
  then have "needs_refresh now h"
    by (auto simp: needs_refresh_def split: option.splits)
  then show "token_requests (snd (snd (get_token reply now h))) = 1"
    using token_requests_new [of reply now h]
    by (simp add: get_token_def case_prod_beta)
next
  assume "\<exists>t e. token h = Some t \<and> token_expiry h = Some e \<and> e - now > hours 4"
  then have "\<not> needs_refresh now h"
    by (auto simp: needs_refresh_def)
  then show "get_token reply now h = (token h, h, [])"
    by (simp add: get_token_def)
qed

theorem get_token_refreshes_within_four_hours_witness:
  "token_requests (snd (snd (get_token (Raises boom) 0 no_token))) = 1
   \<and> token_requests (snd (snd (get_token (Raises boom) (hours 7) fresh_token))) = 1
   \<and> get_token (Raises boom) (hours 5) fresh_token = (Some (JStr ''abc''), fresh_token, [])"
  using get_token_refreshes_within_four_hours [of no_token 0 "Raises boom"]
        get_token_refreshes_within_four_hours [of fresh_token "hours 7" "Raises boom"]
        get_token_refreshes_within_four_hours [of fresh_token "hours 5" "Raises boom"]
  by (simp add: no_token_def fresh_token_def hours_def seconds_def)

section \<open>Evaluation of the calls on concrete inputs\<close>

lemmas run_defs = call_single_api_def apply_preprocess_def hook_of_def build_request_def
  prepare_headers_def send_and_save_def process_response_def apply_output_def save_response_def
  and_then_def emit_def get_auth_def deref_def file_content_def run_preprocessor_def
  run_postprocessor_def run_output_processor_def kwargs_clash_def reparse_def pdata_str_def
  endpoint_name_def replace_def opt_str_def dict_get_def upper_def upper_char_def

lemmas nested_defs = call_nested_apis_def process_parent_def items_to_process_def resolve_url_def
  substitute_def has_braces_def py_str_def seconds_def preprocess_add_headers_def

lemmas input_defs = parent_server_def empty_registry_def basic_handler_def start_world_def
  parent_config_def child_config_def empty_config_def ok_response_def id_doc_def items_doc_def
  failing_registry_def boom_def named_hook_def not_found_def error_server_def hooked_config_def
  post_config_def headers_registry_def authored_store_def headers_config_def no_token_def

lemma str_int_200: "str_int 200 = ''200''"
  by code_simp

lemma str_int_404: "str_int 404 = ''404''"
  by code_simp

lemma str_int_7: "str_int 7 = ''7''"
  by code_simp

text \<open>
  C1. The claim: when the named postprocessor returns \<open>None\<close> or raises, the processed
  data of the call is the original response parsed again. The code at such a call: the
  registry hands back the response object, which is not \<open>None\<close>, so the executor takes it
  as the processed data. For a response with status 200 and the body \<open>{"id": 7}\<close>, and a
  postprocessor that raises (\<open>fail\<close>) or returns \<open>None\<close> (\<open>none\<close>), the processed data is the
  response object and not the parsed body, and the artifact holds the text
  \<open><Response [200]>\<close>.
\<close>

theorem failed_postprocessor_saves_response_object:
  "fst (process_response failing_registry (start_world []) (post_config ''fail'')
          (ok_response id_raw id_doc)) = Returns (PResponse (ok_response id_raw id_doc))
   \<and> fst (process_response failing_registry (start_world []) (post_config ''none'')
          (ok_response id_raw id_doc)) = Returns (PResponse (ok_response id_raw id_doc))
   \<and> reparse (ok_response id_raw id_doc) = PJson id_doc
   \<and> files_written (w_trace (snd (call_single_api (parent_server id_raw id_doc) failing_registry
          basic_handler (start_world []) (post_config ''fail''))))
       = [(''/app/logs/parent_20240101_000000.log'', Written ''<Response [200]>'')]"
  by (simp add: run_defs input_defs Let_def str_int_200)

text \<open>
  C4. The claim: a response with a status of 400 or more is persisted as an error
  artifact tagged with the status code and the raw body, the response is returned, and
  neither the postprocessor nor the output processor is invoked. The code at a response
  with status 404: the response is returned and no processor is invoked, but the artifact
  holds the raw body alone. The body is a string, so \<open>_save_response\<close> takes the branch for
  strings, and the branch that writes the status code is never reached.
\<close>

theorem error_artifact_holds_body_only:
  "fst (call_single_api error_server failing_registry basic_handler (start_world [])
          (hooked_config ''fail'' ''fail'')) = Returns (Some not_found)
   \<and> invocations (w_trace (snd (call_single_api error_server failing_registry basic_handler
          (start_world []) (hooked_config ''fail'' ''fail'')))) = []
   \<and> files_written (w_trace (snd (call_single_api error_server failing_registry basic_handler
          (start_world []) (hooked_config ''fail'' ''fail''))))
       = [(''/app/logs/error_parent_20240101_000000.log'', Written ''no such page'')]
   \<and> file_content (PJson (JStr raw)) True (Some code) = Returns (Written raw)"
  by (simp add: run_defs input_defs Let_def str_int_404)

text \<open>
  C8. The claim: after a call the authored configuration is unchanged, its headers
  included. The code at a child configuration with a \<^verbatim>\<open>headers\<close> dictionary and the
  preprocessor \<open>add_headers\<close>: the copies made by \<open>call_nested_apis\<close> and by the preprocessor
  share the nested dictionary, and the update is written into it. After one single call,
  and after a nested call with one item, the authored \<^verbatim>\<open>headers\<close> hold the added
  header too.
\<close>

theorem add_headers_changes_authored_headers:
  "deref authored_store (headers (headers_config ''/child/{id}'')) = [(''Accept'', JStr ''text/plain'')]
   \<and> deref (w_store (snd (call_single_api (parent_server id_raw id_doc) headers_registry basic_handler
              (start_world authored_store) (headers_config ''/child/7''))))
         (headers (headers_config ''/child/7''))
       = [(''Accept'', JStr ''text/plain''), (''X-Extra'', JStr ''1'')]
   \<and> deref (w_store (snd (call_nested_apis (parent_server id_raw id_doc) headers_registry basic_handler
              (start_world authored_store) (parent_config None) [headers_config ''/child/{id}''])))
         (headers (headers_config ''/child/{id}''))
       = [(''Accept'', JStr ''text/plain''), (''X-Extra'', JStr ''1'')]"
  by (simp add: run_defs nested_defs input_defs Let_def str_int_200 str_int_7)

section \<open>The requests a call sends\<close>

lemma sent_urls_append: "sent_urls (a @ b) = sent_urls a @ sent_urls b"
  by (induction a rule: sent_urls.induct) auto

lemma emit_fields [simp]:
  "w_store (emit evs w) = w_store w" "w_oauth (emit evs w) = w_oauth w"
  "w_clock (emit evs w) = w_clock w" "w_sent (emit evs w) = w_sent w"
  "w_trace (emit evs w) = w_trace w @ evs"
  by (simp_all add: emit_def)

lemma quiet_refl [simp]: "quiet w w"
  by (simp add: quiet_def)

lemma quiet_trans: "quiet w w1 \<Longrightarrow> quiet w1 w2 \<Longrightarrow> quiet w w2"
  by (simp add: quiet_def)

lemma quiet_emit: "sent_urls evs = [] \<Longrightarrow> quiet w w' \<Longrightarrow> quiet w (emit evs w')"
  by (simp add: quiet_def sent_urls_append)

lemma quiet_fields [simp]:
  "quiet w (w'\<lparr>w_store := st\<rparr>) = quiet w w'"
  "quiet w (w'\<lparr>w_oauth := h\<rparr>) = quiet w w'"
  "quiet w (w'\<lparr>w_clock := c\<rparr>) = quiet w w'"
  by (simp_all add: quiet_def)

lemma request_new_token_no_sent: "sent_urls (snd (request_new_token reply now h)) = []"
  by (auto simp: request_new_token_def Let_def split: outcome.splits option.splits json.splits)

lemma get_token_no_sent: "sent_urls (snd (snd (get_token reply now h))) = []"
  by (simp add: get_token_def request_new_token_no_sent case_prod_beta)

lemma prepare_headers_quiet: "quiet w (snd (prepare_headers ev self w))"
  using get_token_no_sent[of "token_server ev" "w_clock w" "w_oauth w"]
  by (auto simp: prepare_headers_def Let_def quiet_emit split: auth_handler.splits prod.splits option.splits)

lemma save_response_quiet: "quiet w (snd (save_response ev w ep d ie st))"
  by (auto simp: save_response_def Let_def quiet_emit split: option.splits outcome.splits)

lemma run_preprocessor_no_sent: "sent_urls (snd (snd (run_preprocessor reg n st c kw))) = []"
  by (auto simp: run_preprocessor_def split: option.splits outcome.splits prod.splits)

lemma run_postprocessor_no_sent: "sent_urls (snd (run_postprocessor reg n r kw)) = []"
  by (auto simp: run_postprocessor_def split: option.splits outcome.splits)

lemma run_output_processor_no_sent: "sent_urls (snd (run_output_processor reg n d e kw)) = []"
  by (auto simp: run_output_processor_def split: option.splits outcome.splits)

lemma apply_preprocess_quiet: "quiet w (snd (apply_preprocess reg w c))"
  using run_preprocessor_no_sent
  by (auto simp: apply_preprocess_def Let_def quiet_emit case_prod_beta split: option.splits)

lemma apply_output_quiet: "quiet w (snd (apply_output reg w c d))"
  using run_output_processor_no_sent
  by (auto simp: apply_output_def Let_def quiet_emit case_prod_beta split: option.splits)

lemma process_response_quiet: "quiet w (snd (process_response reg w c r))"
  using run_postprocessor_no_sent[of reg _ r]
  by (auto simp: process_response_def Let_def quiet_emit case_prod_beta and_then_def
           split: option.splits outcome.splits)


lemma sends_trans: "sends a w w1 \<Longrightarrow> sends b w1 w2 \<Longrightarrow> sends (a @ b) w w2"
  by (simp add: sends_def)

lemma sends_then_quiet: "sends [u] w w1 \<Longrightarrow> quiet w1 w2 \<Longrightarrow> sends [u] w w2"
  by (simp add: sends_def quiet_def)

lemma quiet_then_sends: "quiet w w1 \<Longrightarrow> sends [u] w1 w2 \<Longrightarrow> sends [u] w w2"
  by (simp add: sends_def quiet_def)

lemma and_then_quiet:
  assumes "quiet w (snd m)" and "\<And>a w1. quiet w1 (snd (f a w1))"
  shows "quiet w (snd (and_then m f))"
proof (cases m)
  case (Pair r w1)
  then show ?thesis
    using assms(1) assms(2)[of w1] 
    by (cases r) (auto simp: and_then_def intro: quiet_trans)
qed

lemma after_response_quiet:
  "quiet w (snd (and_then (process_response reg w c r)
                  (\<lambda>processed_data w3.
                     and_then (apply_output reg w3 c processed_data)
                       (\<lambda>success w4.
                          if success then (Returns r, w4)
                          else and_then (save_response ev w4 (url c) processed_data False None)
                                 (\<lambda>_ w5. (Returns r, w5))))))"
  by (intro and_then_quiet process_response_quiet apply_output_quiet)
     (auto intro!: and_then_quiet save_response_quiet)

lemma send_and_save_sends: "sends [req_url req] w (snd (send_and_save ev reg w c req))"
proof -
  let ?w1 = "emit [Log Info (''Calling '' @ req_method req @ '' '' @ opt_str (url c)), Sent req]
               (w\<lparr>w_sent := w_sent w + 1\<rparr>)"
  have first: "sends [req_url req] w ?w1"
    by (simp add: sends_def sent_urls_append)
  show ?thesis
  proof (cases "transport ev (w_sent w) req")
    case (Raises e)
    then show ?thesis using first by (simp add: send_and_save_def)
  next
    case (Returns r)
    let ?w2 = "emit [Log Info (''Response status: '' @ str_int (status_code r))] ?w1"
    have second: "sends [req_url req] w ?w2"
      using first by (simp add: sends_def sent_urls_append)
    show ?thesis
    proof (cases "status_code r \<ge> 400")
      case True
      have "quiet ?w2 (snd (and_then (save_response ev ?w2 (url c) (PJson (JStr (resp_text r))) True
                                        (Some (status_code r))) (\<lambda>_ w3. (Returns r, w3))))"
        by (intro and_then_quiet save_response_quiet) simp
      then show ?thesis
        using second True Returns by (simp add: send_and_save_def Let_def sends_then_quiet)
    next
      case False
      then show ?thesis
        using second Returns after_response_quiet[of ?w2 reg c r ev]
        by (simp add: send_and_save_def Let_def sends_then_quiet)
    qed
  qed
qed

lemma build_request_url: "req_url (fst (build_request ev self w c)) = url c"
  by (simp add: build_request_def Let_def case_prod_beta)

lemma build_request_quiet: "quiet w (snd (build_request ev self w c))"
  using prepare_headers_quiet[of w ev self]
  by (simp add: build_request_def Let_def case_prod_beta)

lemma call_single_api_plain:
  assumes "hook_of (preprocess c) = None"
  shows "\<exists>r. fst (call_single_api ev reg self w c) = Returns r"
    and "sends [url c] w (snd (call_single_api ev reg self w c))"
proof -
  let ?b = "build_request ev self w c"
  let ?s = "send_and_save ev reg (snd ?b) c (fst ?b)"
  have pre: "apply_preprocess reg w c = (Returns c, w)"
    using assms by (simp add: apply_preprocess_def)
  have eq: "call_single_api ev reg self w c =
      (case ?s of (Returns response, w3) \<Rightarrow> (Returns (Some response), w3)
       | (Raises e, w3) \<Rightarrow> (Returns None,
            emit [Log Error (''Error calling '' @ opt_str (url c) @ '': '' @ exc_str e)] w3))"
    by (simp add: call_single_api_def pre and_then_def case_prod_beta)
  show "\<exists>r. fst (call_single_api ev reg self w c) = Returns r"
    unfolding eq by (cases ?s) (auto split: outcome.splits)
  have "sends [url c] (snd ?b) (snd ?s)"
    using send_and_save_sends[of "fst ?b" "snd ?b" ev reg c] by (simp add: build_request_url)
  then have "sends [url c] w (snd ?s)"
    using build_request_quiet quiet_then_sends by blast
  then show "sends [url c] w (snd (call_single_api ev reg self w c))"
    unfolding eq by (cases ?s) (auto split: outcome.splits simp: sends_def sent_urls_append)
qed


lemma emit_emit: "emit b (emit a w) = emit (a @ b) w"
  by (simp add: emit_def)

lemma children_loop_skip:
  assumes "has_braces (pair_url pd item c)"
  shows "children_loop ev reg self pd item w (c # rest) =
         children_loop ev reg self pd item
           (emit (snd (resolve_url pd item (case url c of None \<Rightarrow> [] | Some u \<Rightarrow> u))
                  @ [Log Error (''Unresolved placeholders in URL: '' @ pair_url pd item c
                                @ ''. Skipping this child API call.'')]) w) rest"
  using assms by (simp add: pair_url_def Let_def case_prod_beta emit_emit)

lemma children_loop_call:
  assumes "\<not> has_braces (pair_url pd item c)"
  shows "children_loop ev reg self pd item w (c # rest) =
         (let u = pair_url pd item c;
              w2 = emit (snd (resolve_url pd item (case url c of None \<Rightarrow> [] | Some u \<Rightarrow> u))
                         @ [Log Info (''Calling child API: '' @ u @ '' (original: ''
                                      @ (case url c of None \<Rightarrow> [] | Some u \<Rightarrow> u) @ '')'')]) w;
              r = call_single_api ev reg self w2 (c\<lparr>url := Some u\<rparr>)
          in case fst r of
               Raises e \<Rightarrow> (Raises e, snd r)
             | Returns x \<Rightarrow>
                 (let interval' = (case interval c of None \<Rightarrow> 1 | Some i \<Rightarrow> i);
                      w4 = (if interval' > 0
                            then emit [Slept interval']
                                   ((snd r)\<lparr>w_clock := w_clock (snd r) + seconds interval'\<rparr>)
                            else snd r)
                  in children_loop ev reg self pd item w4 rest))"
  using assms by (simp add: pair_url_def Let_def case_prod_beta emit_emit split: outcome.splits)

lemma resolve_url_no_sent: "sent_urls (snd (resolve_url pd item u0)) = []"
  by (simp add: resolve_url_def Let_def)

lemma children_loop_plain:
  assumes "\<forall>c \<in> set children. hook_of (preprocess c) = None"
  shows "fst (children_loop ev reg self pd item w children) = Returns ()
         \<and> sends (pair_urls pd item children) w (snd (children_loop ev reg self pd item w children))"
  using assms
proof (induction children arbitrary: w)
  case Nil
  then show ?case by (simp add: sends_def pair_urls_def)
next
  case (Cons c rest)
  let ?orig = "case url c of None \<Rightarrow> [] | Some u \<Rightarrow> u"
  let ?u = "pair_url pd item c"
  show ?case
  proof (cases "has_braces ?u")
    case True
    let ?w1 = "emit (snd (resolve_url pd item ?orig)
                  @ [Log Error (''Unresolved placeholders in URL: '' @ ?u
                                @ ''. Skipping this child API call.'')]) w"
    have step: "sends [] w ?w1"
      by (simp add: sends_def sent_urls_append resolve_url_no_sent)
    have rest: "fst (children_loop ev reg self pd item ?w1 rest) = Returns ()
         \<and> sends (pair_urls pd item rest) ?w1 (snd (children_loop ev reg self pd item ?w1 rest))"
      using Cons by simp
    have urls: "pair_urls pd item (c # rest) = pair_urls pd item rest"
      using True by (simp add: pair_urls_def)
    show ?thesis
      unfolding children_loop_skip[OF True] urls
      using rest sends_trans[OF step, of "pair_urls pd item rest"] by simp
  next
    case False
    let ?w2 = "emit (snd (resolve_url pd item ?orig)
                  @ [Log Info (''Calling child API: '' @ ?u @ '' (original: '' @ ?orig @ '')'')]) w"
    let ?c = "c\<lparr>url := Some ?u\<rparr>"
    let ?r = "call_single_api ev reg self ?w2 ?c"
    have plain: "hook_of (preprocess ?c) = None"
      using Cons.prems by simp
    obtain r where r: "fst ?r = Returns r"
      using call_single_api_plain(1)[OF plain] by blast
    have sent: "sends [Some ?u] ?w2 (snd ?r)"
      using call_single_api_plain(2)[where c = ?c and w = ?w2 and ev = ev and reg = reg
              and self = self, OF plain] by simp
    have step: "sends [] w ?w2"
      by (simp add: sends_def sent_urls_append resolve_url_no_sent)
    let ?i = "case interval c of None \<Rightarrow> 1 | Some i \<Rightarrow> i"
    let ?w4 = "if ?i > 0 then emit [Slept ?i] ((snd ?r)\<lparr>w_clock := w_clock (snd ?r) + seconds ?i\<rparr>)
               else snd ?r"
    have pause: "sends [] (snd ?r) ?w4"
      by (simp add: sends_def sent_urls_append)
    have upto: "sends [Some ?u] w ?w4"
      using sends_trans[OF sends_trans[OF step sent] pause] by simp
    have rest: "fst (children_loop ev reg self pd item ?w4 rest) = Returns ()
         \<and> sends (pair_urls pd item rest) ?w4 (snd (children_loop ev reg self pd item ?w4 rest))"
      using Cons by simp
    have urls: "pair_urls pd item (c # rest) = Some ?u # pair_urls pd item rest"
      using False by (simp add: pair_urls_def)
    have eq: "children_loop ev reg self pd item w (c # rest) = children_loop ev reg self pd item ?w4 rest"
      unfolding children_loop_call[OF False] using r by (simp add: Let_def)
    show ?thesis
      unfolding eq urls using rest sends_trans[OF upto, of "pair_urls pd item rest"] by simp
  qed
qed


lemma items_loop_plain:
  assumes "\<forall>c \<in> set children. hook_of (preprocess c) = None"
  shows "fst (items_loop ev reg self pd children w items) = Returns ()
         \<and> sends (nested_urls pd children items) w (snd (items_loop ev reg self pd children w items))"
proof (induction items arbitrary: w)
  case Nil
  then show ?case by (simp add: sends_def nested_urls_def)
next
  case (Cons item items)
  let ?evs = "(case item of JDict d \<Rightarrow> []
               | _ \<Rightarrow> [Log Warning (''Item is not a dictionary: '' @ py_str item
                                     @ ''. Creating a default key.'')])
              @ [Log Debug (''Processing item: '' @ py_str (JDict (item_fields item)))]"
  let ?w1 = "emit ?evs w"
  let ?r = "children_loop ev reg self pd (item_fields item) ?w1 children"
  have step: "sends [] w ?w1"
    by (simp add: sends_def sent_urls_append split: json.splits)
  have inner: "fst ?r = Returns ()" "sends (pair_urls pd (item_fields item) children) ?w1 (snd ?r)"
    using children_loop_plain[OF assms, of ev reg self pd "item_fields item" ?w1] by simp_all
  have eq: "items_loop ev reg self pd children w (item # items)
            = items_loop ev reg self pd children (snd ?r) items"
  proof -
    have "items_loop ev reg self pd children w (item # items)
          = (case ?r of (Raises e, w2) \<Rightarrow> (Raises e, w2)
             | (Returns x, w2) \<Rightarrow> items_loop ev reg self pd children w2 items)"
      by (cases item) (simp_all add: item_fields_def)
    then show ?thesis
      using inner(1) by (cases ?r) simp
  qed
  have urls: "nested_urls pd children (item # items)
              = pair_urls pd (item_fields item) children @ nested_urls pd children items"
    by (simp add: nested_urls_def)
  have upto: "sends (pair_urls pd (item_fields item) children) w (snd ?r)"
    using sends_trans[OF step inner(2)] by simp
  show ?case
    unfolding eq urls
    using Cons[of "snd ?r"] sends_trans[OF upto, of "nested_urls pd children items"] by simp
qed

lemma process_parent_plain:
  assumes "\<forall>c \<in> set children. hook_of (preprocess c) = None"
    and "json_body r = Some pd"
    and "(let p = (case items_path parent of None \<Rightarrow> [] | Some p \<Rightarrow> p)
          in if p \<noteq> [] then navigate p (split CHR ''.'' p) pd else Inr pd) = Inr target"
  shows "fst (process_parent ev reg self w parent children r) = Returns ()"
    and "sends (nested_urls pd children (fst (items_to_process (items_path parent) target))) w
           (snd (process_parent ev reg self w parent children r))"
proof -
  let ?w1 = "emit [Log Error (''Parent API response: '' @ py_str pd @ ''.'')] w"
  let ?items = "fst (items_to_process (items_path parent) target)"
  let ?w2 = "emit (snd (items_to_process (items_path parent) target)) ?w1"
  have eq: "process_parent ev reg self w parent children r
            = items_loop ev reg self pd children ?w2 ?items"
    using assms(2,3) by (simp add: process_parent_def Let_def case_prod_beta)
  have quiet_items: "sent_urls (snd (items_to_process (items_path parent) target)) = []"
    by (simp add: items_to_process_def Let_def split: json.splits)
  have step: "sends [] w ?w2"
    by (simp add: sends_def sent_urls_append quiet_items)
  show "fst (process_parent ev reg self w parent children r) = Returns ()"
    unfolding eq using items_loop_plain[OF assms(1)] by simp
  show "sends (nested_urls pd children ?items) w
           (snd (process_parent ev reg self w parent children r))"
    unfolding eq
    using items_loop_plain[OF assms(1), of ev reg self pd ?w2 ?items] sends_trans[OF step]
    by fastforce
qed

lemma call_nested_apis_plain:
  assumes "\<forall>c \<in> set children. hook_of (preprocess c) = None"
    and "fst (call_single_api ev reg self w parent) = Returns (Some r)"
    and "status_code r < 400"
    and "json_body r = Some pd"
    and "(let p = (case items_path parent of None \<Rightarrow> [] | Some p \<Rightarrow> p)
          in if p \<noteq> [] then navigate p (split CHR ''.'' p) pd else Inr pd) = Inr target"
  shows "fst (call_nested_apis ev reg self w parent children) = Returns ()"
    and "sends (nested_urls pd children (fst (items_to_process (items_path parent) target)))
           (snd (call_single_api ev reg self w parent))
           (snd (call_nested_apis ev reg self w parent children))"
proof -
  let ?w1 = "snd (call_single_api ev reg self w parent)"
  let ?p = "process_parent ev reg self ?w1 parent children r"
  have run: "fst ?p = Returns ()"
    using process_parent_plain(1)[OF assms(1,4,5)] by simp
  have eq: "call_nested_apis ev reg self w parent children = (Returns (), snd ?p)"
    using assms(2,3) run
    by (cases "call_single_api ev reg self w parent"; cases ?p)
       (simp add: call_nested_apis_def and_then_def Let_def)
  show "fst (call_nested_apis ev reg self w parent children) = Returns ()"
    by (simp add: eq)
  show "sends (nested_urls pd children (fst (items_to_process (items_path parent) target)))
           ?w1 (snd (call_nested_apis ev reg self w parent children))"
    unfolding eq using process_parent_plain(2)[OF assms(1,4,5)] by simp
qed

section \<open>Nested calls on the documents of the specification\<close>

lemma str_int_1: "str_int 1 = ''1''"
  by code_simp

lemma str_int_2: "str_int 2 = ''2''"
  by code_simp

lemmas url_defs = nested_urls_def pair_urls_def pair_url_def resolve_url_def substitute_def
  has_braces_def item_fields_def items_to_process_def py_str_def replace_def dict_get_def

text \<open>
  C2. Given a parent call that returned the response \<open>{"items":[{"id":1},{"id":2}]}\<close>
  (\<open>items_doc\<close>), the items path \<open>items\<close> and one child configuration with the URL
  \<open>/child/{id}\<close> (and no preprocessor that could rewrite it), the nested call sends exactly
  two further requests, to \<open>/child/1\<close> and then to \<open>/child/2\<close>.
\<close>

theorem two_items_two_child_calls:
  assumes "fst (call_single_api ev reg self w parent) = Returns (Some r)"
    and "status_code r < 400"
    and "json_body r = Some items_doc"
    and "items_path parent = Some ''items''"
    and "url child = Some ''/child/{id}''"
    and "hook_of (preprocess child) = None"
  shows "fst (call_nested_apis ev reg self w parent [child]) = Returns ()
         \<and> w_sent (snd (call_nested_apis ev reg self w parent [child]))
             = w_sent (snd (call_single_api ev reg self w parent)) + 2
         \<and> sent_urls (w_trace (snd (call_nested_apis ev reg self w parent [child])))
             = sent_urls (w_trace (snd (call_single_api ev reg self w parent)))
               @ [Some ''/child/1'', Some ''/child/2'']"
proof -
  let ?items = "JList [JDict [(''id'', JInt 1)], JDict [(''id'', JInt 2)]]"
  have plain: "\<forall>c \<in> set [child]. hook_of (preprocess c) = None"
    using assms(6) by simp
  have walk: "(let p = (case items_path parent of None \<Rightarrow> [] | Some p \<Rightarrow> p)
               in if p \<noteq> [] then navigate p (split CHR ''.'' p) items_doc else Inr items_doc)
              = Inr ?items"
    using assms(4) by (simp add: items_doc_def dict_get_def)
  have urls: "nested_urls items_doc [child] (fst (items_to_process (items_path parent) ?items))
              = [Some ''/child/1'', Some ''/child/2'']"
    using assms(5) by (simp add: url_defs str_int_1 str_int_2)
  show ?thesis
    using call_nested_apis_plain[OF plain assms(1,2,3) walk, unfolded urls]
    by (simp add: sends_def)
qed

theorem two_items_two_child_calls_witness:
  "sent_urls (w_trace (snd (call_nested_apis (parent_server items_raw items_doc) empty_registry
      basic_handler (start_world []) (parent_config (Some ''items'')) [child_config ''/child/{id}''])))
   = [Some ''/parent'', Some ''/child/1'', Some ''/child/2'']"
proof -
  let ?ev = "parent_server items_raw items_doc"
  let ?parent = "parent_config (Some ''items'')"
  let ?first = "call_single_api ?ev empty_registry basic_handler (start_world []) ?parent"
  have returned: "fst ?first = Returns (Some (ok_response items_raw items_doc))"
    by (simp add: run_defs input_defs Let_def str_int_200)
  have before: "sent_urls (w_trace (snd ?first)) = [Some ''/parent'']"
    by (simp add: run_defs input_defs Let_def str_int_200)
  have status: "status_code (ok_response items_raw items_doc) < 400"
    by (simp add: ok_response_def)
  have body: "json_body (ok_response items_raw items_doc) = Some items_doc"
    by (simp add: ok_response_def)
  have path: "items_path ?parent = Some ''items''"
    by (simp add: parent_config_def)
  have child: "url (child_config ''/child/{id}'') = Some ''/child/{id}''"
    by (simp add: child_config_def)
  have plain: "hook_of (preprocess (child_config ''/child/{id}'')) = None"
    by (simp add: child_config_def empty_config_def hook_of_def)
  show ?thesis
    using two_items_two_child_calls[OF returned status body path child plain] before
    by simp
qed

text \<open>
  C7. Given a parent call that returned the response \<open>{"id": 7}\<close> (\<open>id_doc\<close>), no items
  path and one child configuration with the URL \<open>/child/{id}\<close> (and no preprocessor that
  could rewrite it), the whole response is the one item and the nested call sends exactly
  one further request, to \<open>/child/7\<close>.
\<close>

theorem whole_response_one_child_call:
  assumes "fst (call_single_api ev reg self w parent) = Returns (Some r)"
    and "status_code r < 400"
    and "json_body r = Some id_doc"
    and "items_path parent = None"
    and "url child = Some ''/child/{id}''"
    and "hook_of (preprocess child) = None"
  shows "fst (call_nested_apis ev reg self w parent [child]) = Returns ()
         \<and> w_sent (snd (call_nested_apis ev reg self w parent [child]))
             = w_sent (snd (call_single_api ev reg self w parent)) + 1
         \<and> sent_urls (w_trace (snd (call_nested_apis ev reg self w parent [child])))
             = sent_urls (w_trace (snd (call_single_api ev reg self w parent)))
               @ [Some ''/child/7'']"
proof -
  have plain: "\<forall>c \<in> set [child]. hook_of (preprocess c) = None"
    using assms(6) by simp
  have walk: "(let p = (case items_path parent of None \<Rightarrow> [] | Some p \<Rightarrow> p)
               in if p \<noteq> [] then navigate p (split CHR ''.'' p) id_doc else Inr id_doc)
              = Inr id_doc"
    using assms(4) by simp
  have urls: "nested_urls id_doc [child] (fst (items_to_process (items_path parent) id_doc))
              = [Some ''/child/7'']"
    using assms(5) by (simp add: url_defs id_doc_def str_int_7)
  show ?thesis
    using call_nested_apis_plain[OF plain assms(1,2,3) walk, unfolded urls]
    by (simp add: sends_def)
qed

theorem whole_response_one_child_call_witness:
  "sent_urls (w_trace (snd (call_nested_apis (parent_server id_raw id_doc) empty_registry
      basic_handler (start_world []) (parent_config None) [child_config ''/child/{id}''])))
   = [Some ''/parent'', Some ''/child/7'']"
proof -
  let ?ev = "parent_server id_raw id_doc"
  let ?parent = "parent_config None"
  let ?first = "call_single_api ?ev empty_registry basic_handler (start_world []) ?parent"
  have returned: "fst ?first = Returns (Some (ok_response id_raw id_doc))"
    by (simp add: run_defs input_defs Let_def str_int_200)
  have before: "sent_urls (w_trace (snd ?first)) = [Some ''/parent'']"
    by (simp add: run_defs input_defs Let_def str_int_200)
  have status: "status_code (ok_response id_raw id_doc) < 400"
    by (simp add: ok_response_def)
  have body: "json_body (ok_response id_raw id_doc) = Some id_doc"
    by (simp add: ok_response_def)
  have path: "items_path ?parent = None"
    by (simp add: parent_config_def empty_config_def)
  have child: "url (child_config ''/child/{id}'') = Some ''/child/{id}''"
    by (simp add: child_config_def)
  have plain: "hook_of (preprocess (child_config ''/child/{id}'')) = None"
    by (simp add: child_config_def empty_config_def hook_of_def)
  show ?thesis
    using whole_response_one_child_call[OF returned status body path child plain] before
    by simp
qed

section \<open>Placeholders left in a URL\<close>

lemma contains_set: "contains s sub \<Longrightarrow> set sub \<subseteq> set s"
proof (induction s)
  case Nil
  then show ?case by simp
next
  case (Cons c cs)
  then show ?case
    using set_mono_prefix[of sub "c # cs"] by auto
qed

lemma placeholder_braces: "contains u (placeholder field) \<Longrightarrow> has_braces u"
  using contains_set[of u "placeholder field"] by (auto simp: placeholder_def has_braces_def)

lemma substitute_without_braces: "\<not> has_braces u \<Longrightarrow> substitute u d = u"
proof (induction d)
  case Nil
  then show ?case by (simp add: substitute_def)
next
  case (Cons kv d)
  obtain k v where kv: "kv = (k, v)" by (cases kv)
  have "\<not> contains u (''{'' @ k @ ''}'')"
    using Cons.prems placeholder_braces[of u k] by (auto simp: placeholder_def)
  then have "substitute u (kv # d) = substitute u d"
    by (simp add: substitute_def kv)
  then show ?case using Cons by simp
qed

lemma pair_url_both_passes: "pair_url pd item c = both_passes pd item (url_text c)"
  by (cases pd)
     (simp_all add: pair_url_def resolve_url_def both_passes_def url_text_def Let_def
        substitute_without_braces)

text \<open>
  C3. When the URL of a child configuration, after the substitution from the fields of the
  item and then from the top-level fields of the parent response, still contains a
  placeholder \<open>{field}\<close>, the pair is dropped: the loop goes on with the remaining child
  configurations in a world that differs from the one before by log entries only, the
  last of them the error that reports the drop, and no request is among them.
\<close>

theorem unresolved_placeholder_skips_pair:
  assumes "contains (both_passes pd item (url_text c)) (placeholder field)"
  shows "children_loop ev reg self pd item w (c # rest)
         = children_loop ev reg self pd item
             (emit (snd (resolve_url pd item (url_text c))
                    @ [drop_log (both_passes pd item (url_text c))]) w) rest
         \<and> sent_urls (snd (resolve_url pd item (url_text c))
                        @ [drop_log (both_passes pd item (url_text c))]) = []"
proof -
  have braces: "has_braces (pair_url pd item c)"
    using assms placeholder_braces by (simp add: pair_url_both_passes)
  show ?thesis
    using children_loop_skip[OF braces, of ev reg self w rest]
    by (simp add: pair_url_both_passes url_text_def drop_log_def sent_urls_append resolve_url_no_sent)
qed

theorem unresolved_placeholder_skips_pair_witness:
  "sent_urls (w_trace (snd (children_loop (parent_server id_raw id_doc) empty_registry basic_handler
      id_doc [(''id'', JInt 7)] (start_world [])
      [child_config ''/child/{missing}'', child_config ''/child/{id}''])))
   = [Some ''/child/7'']
   \<and> children_loop (parent_server id_raw id_doc) empty_registry basic_handler
         id_doc [(''id'', JInt 7)] (start_world []) [child_config ''/child/{missing}'']
       = (Returns (),
          emit [Log Warning ''Some placeholders not replaced in URL: /child/{missing}'',
                drop_log ''/child/{missing}''] (start_world []))"
proof -
  let ?c = "child_config ''/child/{missing}''"
  let ?item = "[(''id'', JInt 7)]"
  have url: "both_passes id_doc ?item (url_text ?c) = ''/child/{missing}''"
    by (simp add: both_passes_def id_doc_def substitute_def url_text_def child_config_def)
  have left: "contains (both_passes id_doc ?item (url_text ?c)) (placeholder ''missing'')"
    unfolding url by (simp add: placeholder_def)
  have logs: "snd (resolve_url id_doc ?item (url_text ?c))
              = [Log Warning ''Some placeholders not replaced in URL: /child/{missing}'']"
    by (simp add: resolve_url_def id_doc_def substitute_def url_text_def child_config_def
          has_braces_def Let_def)
  have plain: "\<forall>c \<in> set [child_config ''/child/{id}'']. hook_of (preprocess c) = None"
    by (simp add: child_config_def empty_config_def hook_of_def)
  have urls: "pair_urls id_doc ?item [child_config ''/child/{id}''] = [Some ''/child/7'']"
    by (simp add: url_defs child_config_def str_int_7)
  let ?w = "emit [Log Warning ''Some placeholders not replaced in URL: /child/{missing}'',
                  drop_log ''/child/{missing}''] (start_world [])"
  have rest: "sends [Some ''/child/7''] ?w
     (snd (children_loop (parent_server id_raw id_doc) empty_registry basic_handler id_doc ?item ?w
        [child_config ''/child/{id}'']))"
    using children_loop_plain[OF plain, of "parent_server id_raw id_doc" empty_registry
            basic_handler id_doc ?item ?w]
    by (simp add: urls)
  have two: "sent_urls (w_trace (snd (children_loop (parent_server id_raw id_doc) empty_registry
      basic_handler id_doc ?item (start_world []) [?c, child_config ''/child/{id}''])))
      = [Some ''/child/7'']"
    using unresolved_placeholder_skips_pair[OF left, of "parent_server id_raw id_doc" empty_registry
            basic_handler "start_world []" "[child_config ''/child/{id}'']"] rest
    by (simp add: url logs sends_def start_world_def sent_urls_append drop_log_def)
  have one: "children_loop (parent_server id_raw id_doc) empty_registry basic_handler
         id_doc ?item (start_world []) [?c] = (Returns (), ?w)"
    using unresolved_placeholder_skips_pair[OF left, of "parent_server id_raw id_doc" empty_registry
            basic_handler "start_world []" "[]"]
    by (simp add: url logs)
  show ?thesis
    using two one by simp
qed


lemma children_loop_call_pause:
  assumes "\<not> has_braces (pair_url pd item c)"
  shows "children_loop ev reg self pd item w (c # rest)
         = (let r = call_single_api ev reg self
                      (emit (snd (resolve_url pd item (url_text c))
                             @ [Log Info (''Calling child API: '' @ pair_url pd item c
                                          @ '' (original: '' @ url_text c @ '')'')]) w)
                      (c\<lparr>url := Some (pair_url pd item c)\<rparr>)
            in case fst r of
                 Raises e \<Rightarrow> (Raises e, snd r)
               | Returns x \<Rightarrow> children_loop ev reg self pd item (pause c (snd r)) rest)"
  unfolding children_loop_call[OF assms]
  by (simp add: Let_def url_text_def pause_def split: outcome.splits)

lemma single_pair_sent:
  assumes "hook_of (preprocess c) = None"
  shows "(w_sent (snd (children_loop ev reg self pd item w [c])) = w_sent w)
         = has_braces (pair_url pd item c)"
proof -
  have plain: "\<forall>x \<in> set [c]. hook_of (preprocess x) = None"
    using assms by simp
  have "w_sent (snd (children_loop ev reg self pd item w [c]))
        = w_sent w + length (pair_urls pd item [c])"
    using children_loop_plain[OF plain, of ev reg self pd item w] by (simp add: sends_def)
  then show ?thesis
    by (simp add: pair_urls_def)
qed

text \<open>
  C9. The test that decides whether a pair is dropped is the test of the final URL for a
  \<open>{\<close> and a \<open>}\<close> anywhere in it. If the test holds, the pair is dropped and the loop goes
  on; if it fails, the single call is made on the configuration with the final URL; and
  for a child configuration without a preprocessor, no request is sent for the pair
  exactly when the test holds. So a pair is dropped as well when every placeholder was
  replaced but the text of a value, or the URL as written, has braces of its own.
\<close>

theorem skip_test_is_brace_test:
  "(has_braces (pair_url pd item c) \<longrightarrow>
      children_loop ev reg self pd item w (c # rest)
      = children_loop ev reg self pd item
          (emit (snd (resolve_url pd item (url_text c)) @ [drop_log (pair_url pd item c)]) w) rest)
   \<and> (\<not> has_braces (pair_url pd item c) \<longrightarrow>
      children_loop ev reg self pd item w (c # rest)
      = (let r = call_single_api ev reg self
                   (emit (snd (resolve_url pd item (url_text c))
                          @ [Log Info (''Calling child API: '' @ pair_url pd item c
                                       @ '' (original: '' @ url_text c @ '')'')]) w)
                   (c\<lparr>url := Some (pair_url pd item c)\<rparr>)
         in case fst r of
              Raises e \<Rightarrow> (Raises e, snd r)
            | Returns x \<Rightarrow> children_loop ev reg self pd item (pause c (snd r)) rest))
   \<and> (hook_of (preprocess c) = None \<longrightarrow>
      (w_sent (snd (children_loop ev reg self pd item w [c])) = w_sent w)
      = has_braces (pair_url pd item c))"
proof (intro conjI impI)
  assume "has_braces (pair_url pd item c)"
  then show "children_loop ev reg self pd item w (c # rest)
      = children_loop ev reg self pd item
          (emit (snd (resolve_url pd item (url_text c)) @ [drop_log (pair_url pd item c)]) w) rest"
    using children_loop_skip[of pd item c ev reg self w rest]
    by (simp add: url_text_def drop_log_def)
next
  assume "\<not> has_braces (pair_url pd item c)"
  then show "children_loop ev reg self pd item w (c # rest)
      = (let r = call_single_api ev reg self
                   (emit (snd (resolve_url pd item (url_text c))
                          @ [Log Info (''Calling child API: '' @ pair_url pd item c
                                       @ '' (original: '' @ url_text c @ '')'')]) w)
                   (c\<lparr>url := Some (pair_url pd item c)\<rparr>)
         in case fst r of
              Raises e \<Rightarrow> (Raises e, snd r)
            | Returns x \<Rightarrow> children_loop ev reg self pd item (pause c (snd r)) rest)"
    by (rule children_loop_call_pause)
next
  assume "hook_of (preprocess c) = None"
  then show "(w_sent (snd (children_loop ev reg self pd item w [c])) = w_sent w)
      = has_braces (pair_url pd item c)"
    by (rule single_pair_sent)
qed

lemma str_repr_a1: "py_str (JDict [(''a'', JInt 1)]) = ''{'' @ [CHR 0x27] @ ''a'' @ [CHR 0x27] @ '': 1}''"
  by (simp add: py_str_def repr_str_def str_int_1 Let_def)

theorem skip_test_is_brace_test_witness:
  "w_sent (snd (children_loop (parent_server id_raw id_doc) empty_registry basic_handler
      (JList []) [(''id'', JDict [(''a'', JInt 1)])] (start_world []) [child_config ''/child/{id}''])) = 0
   \<and> \<not> contains (pair_url (JList []) [(''id'', JDict [(''a'', JInt 1)])] (child_config ''/child/{id}''))
         (placeholder ''id'')
   \<and> w_sent (snd (children_loop (parent_server id_raw id_doc) empty_registry basic_handler
      (JList []) [(''id'', JInt 1)] (start_world []) [child_config ''/q/{}/{id}''])) = 0
   \<and> pair_url (JList []) [(''id'', JInt 1)] (child_config ''/q/{}/{id}'') = ''/q/{}/1''
   \<and> w_sent (snd (children_loop (parent_server id_raw id_doc) empty_registry basic_handler
      (JList []) [(''id'', JInt 1)] (start_world []) [child_config ''/child/{id}''])) \<noteq> 0"
proof -
  have plain: "hook_of (preprocess (child_config u)) = None" for u
    by (simp add: child_config_def empty_config_def hook_of_def)
  have mapping: "pair_url (JList []) [(''id'', JDict [(''a'', JInt 1)])] (child_config ''/child/{id}'')
                 = ''/child/{'' @ [CHR 0x27] @ ''a'' @ [CHR 0x27] @ '': 1}''"
    by (simp add: pair_url_def resolve_url_def substitute_def child_config_def has_braces_def
          replace_def Let_def str_repr_a1)
  have literal: "pair_url (JList []) [(''id'', JInt 1)] (child_config ''/q/{}/{id}'') = ''/q/{}/1''"
    by (simp add: pair_url_def resolve_url_def substitute_def child_config_def has_braces_def
          replace_def Let_def py_str_def str_int_1)
  have resolved: "pair_url (JList []) [(''id'', JInt 1)] (child_config ''/child/{id}'') = ''/child/1''"
    by (simp add: pair_url_def resolve_url_def substitute_def child_config_def has_braces_def
          replace_def Let_def py_str_def str_int_1)
  note dict_case = skip_test_is_brace_test[of "JList []" "[(''id'', JDict [(''a'', JInt 1)])]"
            "child_config ''/child/{id}''" "parent_server id_raw id_doc" empty_registry
            basic_handler "start_world []" "[]", THEN conjunct2, THEN conjunct2, rule_format, OF plain]
  note literal_case = skip_test_is_brace_test[of "JList []" "[(''id'', JInt 1)]"
            "child_config ''/q/{}/{id}''" "parent_server id_raw id_doc" empty_registry
            basic_handler "start_world []" "[]", THEN conjunct2, THEN conjunct2, rule_format, OF plain]
  note plain_case = skip_test_is_brace_test[of "JList []" "[(''id'', JInt 1)]"
            "child_config ''/child/{id}''" "parent_server id_raw id_doc" empty_registry
            basic_handler "start_world []" "[]", THEN conjunct2, THEN conjunct2, rule_format, OF plain]
  have zero: "w_sent (start_world []) = 0"
    by (simp add: start_world_def)
  have first: "w_sent (snd (children_loop (parent_server id_raw id_doc) empty_registry basic_handler
      (JList []) [(''id'', JDict [(''a'', JInt 1)])] (start_world []) [child_config ''/child/{id}''])) = 0"
    using dict_case unfolding mapping zero by (simp add: has_braces_def del: children_loop.simps)
  have second: "\<not> contains (pair_url (JList []) [(''id'', JDict [(''a'', JInt 1)])]
      (child_config ''/child/{id}'')) (placeholder ''id'')"
    unfolding mapping by (simp add: placeholder_def)
  have third: "w_sent (snd (children_loop (parent_server id_raw id_doc) empty_registry basic_handler
      (JList []) [(''id'', JInt 1)] (start_world []) [child_config ''/q/{}/{id}''])) = 0"
    using literal_case unfolding literal zero by (simp add: has_braces_def del: children_loop.simps)
  have fourth: "w_sent (snd (children_loop (parent_server id_raw id_doc) empty_registry basic_handler
      (JList []) [(''id'', JInt 1)] (start_world []) [child_config ''/child/{id}''])) \<noteq> 0"
    using plain_case unfolding resolved zero by (simp add: has_braces_def del: children_loop.simps)
  show ?thesis
    using first second third literal fourth by blast
qed

section \<open>Failures of the file system\<close>

lemma effects_append: "effects (a @ b) = effects a @ effects b"
  by (induction a rule: effects.induct) auto

lemma same_run_refl [simp]: "same_run w w"
  by (simp add: same_run_def)

lemma same_run_emit:
  "same_run w w' \<Longrightarrow> effects evs' = effects evs \<Longrightarrow> same_run (emit evs w) (emit evs' w')"
  by (simp add: same_run_def effects_append)

lemma same_run_fields:
  assumes "same_run w w'"
  shows "w_store w' = w_store w" "w_oauth w' = w_oauth w" "w_clock w' = w_clock w"
    "w_sent w' = w_sent w"
  using assms by (simp_all add: same_run_def)

lemma same_run_update:
  assumes "same_run w w'"
  shows "same_run (w\<lparr>w_store := st\<rparr>) (w'\<lparr>w_store := st\<rparr>)"
    "same_run (w\<lparr>w_oauth := h\<rparr>) (w'\<lparr>w_oauth := h\<rparr>)"
    "same_run (w\<lparr>w_clock := c\<rparr>) (w'\<lparr>w_clock := c\<rparr>)"
    "same_run (w\<lparr>w_sent := n\<rparr>) (w'\<lparr>w_sent := n\<rparr>)"
  using assms by (simp_all add: same_run_def)

lemma and_then_agree:
  assumes "agree m m'"
    and "\<And>a w w'. same_run w w' \<Longrightarrow> agree (f a w) (f' a w')"
  shows "agree (and_then m f) (and_then m' f')"
proof -
  obtain r w where m: "m = (r, w)" by (cases m)
  obtain r' w' where m': "m' = (r', w')" by (cases m')
  have same: "r' = r" "same_run w w'"
    using assms(1) by (simp_all add: m m' agree_def)
  show ?thesis
  proof (cases r)
    case (Returns a)
    then show ?thesis
      using assms(2)[OF same(2), of a] by (simp add: m m' same(1) and_then_def)
  next
    case (Raises e)
    then show ?thesis
      using same by (simp add: m m' and_then_def agree_def)
  qed
qed

lemma prepare_headers_agree:
  assumes "same_run w w'" and "token_server ev' = token_server ev"
  shows "fst (prepare_headers ev' self w') = fst (prepare_headers ev self w)"
    and "same_run (snd (prepare_headers ev self w)) (snd (prepare_headers ev' self w'))"
  using assms
  by (auto simp: prepare_headers_def Let_def case_prod_beta same_run_fields
      intro!: same_run_emit same_run_update split: auth_handler.splits option.splits)


lemma build_request_agree:
  assumes "same_run w w'"
  shows "fst (build_request (ev\<lparr>open_file := f\<rparr>) self w' c) = fst (build_request ev self w c)"
    and "same_run (snd (build_request ev self w c)) (snd (build_request (ev\<lparr>open_file := f\<rparr>) self w' c))"
proof -
  have st: "w_store w' = w_store w"
    using assms by (simp add: same_run_def)
  note hdrs = prepare_headers_agree[OF assms, of "ev\<lparr>open_file := f\<rparr>" ev self]
  show "fst (build_request (ev\<lparr>open_file := f\<rparr>) self w' c) = fst (build_request ev self w c)"
    unfolding build_request_def Let_def case_prod_beta st using hdrs(1) by simp
  show "same_run (snd (build_request ev self w c)) (snd (build_request (ev\<lparr>open_file := f\<rparr>) self w' c))"
    unfolding build_request_def Let_def case_prod_beta st using hdrs(2) by simp
qed

lemma apply_preprocess_agree:
  assumes "same_run w w'"
  shows "agree (apply_preprocess reg w c) (apply_preprocess reg w' c)"
  using assms
  by (auto simp: apply_preprocess_def Let_def case_prod_beta agree_def same_run_fields
      intro!: same_run_emit same_run_update split: option.splits)

lemma process_response_agree:
  assumes "same_run w w'"
  shows "agree (process_response reg w c r) (process_response reg w' c r)"
  using assms
  by (auto simp: process_response_def Let_def case_prod_beta agree_def and_then_def
      intro!: same_run_emit split: option.splits outcome.splits)

lemma apply_output_agree:
  assumes "same_run w w'"
  shows "agree (apply_output reg w c d) (apply_output reg w' c d)"
  using assms
  by (auto simp: apply_output_def Let_def case_prod_beta agree_def
      intro!: same_run_emit split: option.splits)

lemma save_response_agree:
  assumes "same_run w w'"
  shows "agree (save_response ev w ep d ie st) (save_response (ev\<lparr>open_file := f\<rparr>) w' ep d ie st)"
proof (cases "makedirs ev")
  case (Some e)
  then show ?thesis using assms by (simp add: save_response_def agree_def)
next
  case None
  show ?thesis
  proof (cases ep)
    case None
    then show ?thesis using assms \<open>makedirs ev = None\<close> by (simp add: save_response_def agree_def)
  next
    case (Some u)
    have left: "fst (save_response ev w (Some u) d ie st) = Returns ()"
      "same_run w (snd (save_response ev w (Some u) d ie st))"
      using \<open>makedirs ev = None\<close>
      by (auto simp: save_response_def Let_def same_run_def effects_append
          split: option.splits outcome.splits)
    have right: "fst (save_response (ev\<lparr>open_file := f\<rparr>) w' (Some u) d ie st) = Returns ()"
      "same_run w' (snd (save_response (ev\<lparr>open_file := f\<rparr>) w' (Some u) d ie st))"
      using \<open>makedirs ev = None\<close>
      by (auto simp: save_response_def Let_def same_run_def effects_append
          split: option.splits outcome.splits)
    show ?thesis
      using left right assms Some by (simp add: agree_def same_run_def)
  qed
qed


lemma saved_agree:
  assumes "same_run w w'"
  shows "agree (and_then (save_response ev w ep d ie st) (\<lambda>_ w5. (Returns r, w5)))
               (and_then (save_response (ev\<lparr>open_file := f\<rparr>) w' ep d ie st)
                  (\<lambda>_ w5. (Returns r, w5)))"
  by (intro and_then_agree save_response_agree assms) (simp add: agree_def)

lemma after_output_agree:
  assumes "same_run w w'"
  shows "agree (if success then (Returns r, w)
                else and_then (save_response ev w ep d False None) (\<lambda>_ w5. (Returns r, w5)))
               (if success then (Returns r, w')
                else and_then (save_response (ev\<lparr>open_file := f\<rparr>) w' ep d False None)
                       (\<lambda>_ w5. (Returns r, w5)))"
proof (cases success)
  case True
  then show ?thesis using assms by (simp add: agree_def)
next
  case False
  then show ?thesis using saved_agree[OF assms, of ev ep d False None r f] by simp
qed

lemma send_and_save_agree:
  assumes "same_run w w'"
  shows "agree (send_and_save ev reg w c req) (send_and_save (ev\<lparr>open_file := f\<rparr>) reg w' c req)"
proof -
  let ?ev' = "ev\<lparr>open_file := f\<rparr>"
  let ?call = "[Log Info (''Calling '' @ req_method req @ '' '' @ opt_str (url c)), Sent req]"
  let ?w1 = "emit ?call (w\<lparr>w_sent := w_sent w + 1\<rparr>)"
  let ?w1' = "emit ?call (w'\<lparr>w_sent := w_sent w' + 1\<rparr>)"
  have n: "w_sent w' = w_sent w"
    using assms by (simp add: same_run_def)
  have w1: "same_run ?w1 ?w1'"
    using assms by (simp add: same_run_def effects_append)
  show ?thesis
  proof (cases "transport ev (w_sent w) req")
    case (Raises e)
    then show ?thesis
      using w1 by (simp add: send_and_save_def n agree_def)
  next
    case (Returns r)
    let ?status = "[Log Info (''Response status: '' @ str_int (status_code r))]"
    have w2: "same_run (emit ?status ?w1) (emit ?status ?w1')"
      using w1 by (rule same_run_emit) simp
    show ?thesis
    proof (cases "status_code r \<ge> 400")
      case True
      have "agree (and_then (save_response ev (emit ?status ?w1) (url c) (PJson (JStr (resp_text r)))
                               True (Some (status_code r))) (\<lambda>_ w3. (Returns r, w3)))
                  (and_then (save_response ?ev' (emit ?status ?w1') (url c) (PJson (JStr (resp_text r)))
                               True (Some (status_code r))) (\<lambda>_ w3. (Returns r, w3)))"
        by (rule saved_agree[OF w2])
      then show ?thesis
        using True Returns by (simp add: send_and_save_def Let_def n)
    next
      case False
      have "agree (and_then (process_response reg (emit ?status ?w1) c r)
                     (\<lambda>processed_data w3.
                        and_then (apply_output reg w3 c processed_data)
                          (\<lambda>success w4.
                             if success then (Returns r, w4)
                             else and_then (save_response ev w4 (url c) processed_data False None)
                                    (\<lambda>_ w5. (Returns r, w5)))))
                  (and_then (process_response reg (emit ?status ?w1') c r)
                     (\<lambda>processed_data w3.
                        and_then (apply_output reg w3 c processed_data)
                          (\<lambda>success w4.
                             if success then (Returns r, w4)
                             else and_then (save_response ?ev' w4 (url c) processed_data False None)
                                    (\<lambda>_ w5. (Returns r, w5)))))"
        by (intro and_then_agree process_response_agree apply_output_agree w2 after_output_agree)
      then show ?thesis
        using False Returns by (simp add: send_and_save_def Let_def n)
    qed
  qed
qed

lemma call_single_api_agree:
  assumes "same_run w w'"
  shows "agree (call_single_api ev reg self w c) (call_single_api (ev\<lparr>open_file := f\<rparr>) reg self w' c)"
proof -
  let ?ev' = "ev\<lparr>open_file := f\<rparr>"
  have step: "agree
      (let (req, w2) = build_request ev self w1 c1 in
       case send_and_save ev reg w2 c1 req of
         (Returns response, w3) \<Rightarrow> (Returns (Some response), w3)
       | (Raises e, w3) \<Rightarrow>
           (Returns None,
            emit [Log Error (''Error calling '' @ opt_str (url c1) @ '': '' @ exc_str e)] w3))
      (let (req, w2) = build_request ?ev' self w1' c1 in
       case send_and_save ?ev' reg w2 c1 req of
         (Returns response, w3) \<Rightarrow> (Returns (Some response), w3)
       | (Raises e, w3) \<Rightarrow>
           (Returns None,
            emit [Log Error (''Error calling '' @ opt_str (url c1) @ '': '' @ exc_str e)] w3))"
    if "same_run w1 w1'" for w1 w1' c1
  proof -
    let ?b = "build_request ev self w1 c1"
    let ?b' = "build_request ?ev' self w1' c1"
    have req: "fst ?b' = fst ?b" and w2: "same_run (snd ?b) (snd ?b')"
      using build_request_agree[OF that] by simp_all
    let ?s = "send_and_save ev reg (snd ?b) c1 (fst ?b)"
    let ?s' = "send_and_save ?ev' reg (snd ?b') c1 (fst ?b)"
    have sent: "agree ?s ?s'"
      using send_and_save_agree[OF w2] by simp
    obtain r w3 where s: "?s = (r, w3)" by (cases ?s)
    obtain r' w3' where s': "?s' = (r', w3')" by (cases ?s')
    have same: "r' = r" "same_run w3 w3'"
      using sent by (simp_all add: s s' agree_def)
    show ?thesis
      using same
      by (cases r) (simp_all add: case_prod_beta req s s' agree_def same_run_emit)
  qed
  show ?thesis
    unfolding call_single_api_def
    by (intro and_then_agree apply_preprocess_agree assms step)
qed

lemma children_loop_agree:
  assumes "same_run w w'"
  shows "agree (children_loop ev reg self pd item w children)
               (children_loop (ev\<lparr>open_file := f\<rparr>) reg self pd item w' children)"
  using assms
proof (induction children arbitrary: w w')
  case Nil
  then show ?case by (simp add: agree_def)
next
  case (Cons c rest)
  let ?ev' = "ev\<lparr>open_file := f\<rparr>"
  show ?case
  proof (cases "has_braces (pair_url pd item c)")
    case True
    have "same_run (emit (snd (resolve_url pd item (case url c of None \<Rightarrow> [] | Some u \<Rightarrow> u))
                  @ [Log Error (''Unresolved placeholders in URL: '' @ pair_url pd item c
                                @ ''. Skipping this child API call.'')]) w)
            (emit (snd (resolve_url pd item (case url c of None \<Rightarrow> [] | Some u \<Rightarrow> u))
                  @ [Log Error (''Unresolved placeholders in URL: '' @ pair_url pd item c
                                @ ''. Skipping this child API call.'')]) w')"
      using Cons.prems by (rule same_run_emit) simp
    then show ?thesis
      unfolding children_loop_skip[OF True] by (rule Cons.IH)
  next
    case False
    let ?logs = "snd (resolve_url pd item (url_text c))
                 @ [Log Info (''Calling child API: '' @ pair_url pd item c
                              @ '' (original: '' @ url_text c @ '')'')]"
    let ?c = "c\<lparr>url := Some (pair_url pd item c)\<rparr>"
    let ?r = "call_single_api ev reg self (emit ?logs w) ?c"
    let ?r' = "call_single_api ?ev' reg self (emit ?logs w') ?c"
    have "same_run (emit ?logs w) (emit ?logs w')"
      using Cons.prems by (rule same_run_emit) simp
    then have called: "agree ?r ?r'"
      by (rule call_single_api_agree)
    then have res: "fst ?r' = fst ?r" and after: "same_run (snd ?r) (snd ?r')"
      by (simp_all add: agree_def)
    have paused: "same_run (pause c (snd ?r)) (pause c (snd ?r'))"
      using after by (auto simp: pause_def Let_def same_run_fields intro!: same_run_emit same_run_update)
    show ?thesis
      unfolding children_loop_call_pause[OF False] Let_def res
      using after Cons.IH[OF paused]
      by (cases "fst ?r") (simp_all add: agree_def)
  qed
qed


lemma items_loop_agree:
  assumes "same_run w w'"
  shows "agree (items_loop ev reg self pd children w items)
               (items_loop (ev\<lparr>open_file := f\<rparr>) reg self pd children w' items)"
  using assms
proof (induction items arbitrary: w w')
  case Nil
  then show ?case by (simp add: agree_def)
next
  case (Cons item items)
  let ?ev' = "ev\<lparr>open_file := f\<rparr>"
  let ?evs = "(case item of JDict d \<Rightarrow> []
               | _ \<Rightarrow> [Log Warning (''Item is not a dictionary: '' @ py_str item
                                     @ ''. Creating a default key.'')])
              @ [Log Debug (''Processing item: '' @ py_str (JDict (item_fields item)))]"
  let ?r = "children_loop ev reg self pd (item_fields item) (emit ?evs w) children"
  let ?r' = "children_loop ?ev' reg self pd (item_fields item) (emit ?evs w') children"
  have unfold: "items_loop e reg self pd children v (item # items)
          = (case fst (children_loop e reg self pd (item_fields item) (emit ?evs v) children) of
               Raises x \<Rightarrow>
                 (Raises x, snd (children_loop e reg self pd (item_fields item) (emit ?evs v) children))
             | Returns x \<Rightarrow>
                 items_loop e reg self pd children
                   (snd (children_loop e reg self pd (item_fields item) (emit ?evs v) children)) items)"
    for e v
    by (cases item) (simp_all add: item_fields_def case_prod_beta split: outcome.splits)
  have "same_run (emit ?evs w) (emit ?evs w')"
    using Cons.prems by (rule same_run_emit) simp
  then have inner: "agree ?r ?r'"
    by (rule children_loop_agree)
  then have res: "fst ?r' = fst ?r" and after: "same_run (snd ?r) (snd ?r')"
    by (simp_all add: agree_def)
  show ?case
    unfolding unfold[of ev w] unfold[of ?ev' w'] res
    using after Cons.IH[OF after]
    by (cases "fst ?r") (simp_all add: agree_def)
qed

lemma process_parent_agree:
  assumes "same_run w w'"
  shows "agree (process_parent ev reg self w parent children r)
               (process_parent (ev\<lparr>open_file := f\<rparr>) reg self w' parent children r)"
proof (cases "json_body r")
  case None
  then show ?thesis using assms by (simp add: process_parent_def agree_def)
next
  case (Some pd)
  let ?w1 = "emit [Log Error (''Parent API response: '' @ py_str pd @ ''.'')] w"
  let ?w1' = "emit [Log Error (''Parent API response: '' @ py_str pd @ ''.'')] w'"
  have w1: "same_run ?w1 ?w1'"
    using assms by (rule same_run_emit) simp
  let ?p = "case items_path parent of None \<Rightarrow> [] | Some p \<Rightarrow> p"
  show ?thesis
  proof (cases "if ?p \<noteq> [] then navigate ?p (split CHR ''.'' ?p) pd else Inr pd")
    case (Inl msg)
    have "same_run (emit [Log Error msg] ?w1) (emit [Log Error msg] ?w1')"
      using w1 by (rule same_run_emit) simp
    then show ?thesis
      using Some Inl by (simp add: process_parent_def Let_def agree_def)
  next
    case (Inr target)
    let ?evs = "snd (items_to_process (items_path parent) target)"
    have "same_run (emit ?evs ?w1) (emit ?evs ?w1')"
      using w1 by (rule same_run_emit) simp
    then show ?thesis
      using Some Inr items_loop_agree
      by (simp add: process_parent_def Let_def case_prod_beta)
  qed
qed

lemma call_nested_apis_agree:
  "agree (call_nested_apis ev reg self w parent children)
         (call_nested_apis (ev\<lparr>open_file := f\<rparr>) reg self w parent children)"
proof -
  let ?ev' = "ev\<lparr>open_file := f\<rparr>"
  have step: "agree
      (let failed = (Returns (), emit [Log Error (''Failed to get response from parent API ''
                                         @ opt_str (url parent))] w1)
       in case pr of
            None \<Rightarrow> failed
          | Some r \<Rightarrow>
              if status_code r \<ge> 400 then failed
              else (case process_parent ev reg self w1 parent children r of
                      (Raises e, w2) \<Rightarrow>
                        (Returns (),
                         emit [Log Error (''Error processing nested APIs: '' @ exc_str e),
                               Log Error ''Traceback (most recent call last)''] w2)
                    | (Returns u, w2) \<Rightarrow> (Returns (), w2)))
      (let failed = (Returns (), emit [Log Error (''Failed to get response from parent API ''
                                         @ opt_str (url parent))] w1')
       in case pr of
            None \<Rightarrow> failed
          | Some r \<Rightarrow>
              if status_code r \<ge> 400 then failed
              else (case process_parent ?ev' reg self w1' parent children r of
                      (Raises e, w2) \<Rightarrow>
                        (Returns (),
                         emit [Log Error (''Error processing nested APIs: '' @ exc_str e),
                               Log Error ''Traceback (most recent call last)''] w2)
                    | (Returns u, w2) \<Rightarrow> (Returns (), w2)))"
    if same: "same_run w1 w1'" for pr w1 w1'
  proof -
    have failed: "same_run (emit [Log Error m] w1) (emit [Log Error m] w1')" for m
      using same by (rule same_run_emit) simp
    show ?thesis
    proof (cases pr)
      case None
      then show ?thesis using failed by (simp add: agree_def)
    next
      case (Some r)
      let ?p = "process_parent ev reg self w1 parent children r"
      let ?p' = "process_parent ?ev' reg self w1' parent children r"
      have inner: "agree ?p ?p'"
        using same by (rule process_parent_agree)
      obtain x w2 where p: "?p = (x, w2)" by (cases ?p)
      obtain x' w2' where p': "?p' = (x', w2')" by (cases ?p')
      have eq: "x' = x" "same_run w2 w2'"
        using inner by (simp_all add: p p' agree_def)
      have logged: "same_run (emit [Log Error a, Log Error b] w2) (emit [Log Error a, Log Error b] w2')"
        for a b using eq(2) by (rule same_run_emit) simp
      show ?thesis
        using Some failed eq logged
        by (cases x) (simp_all add: p p' agree_def)
    qed
  qed
  show ?thesis
    unfolding call_nested_apis_def
    by (intro and_then_agree call_single_api_agree step) simp_all
qed

lemma save_response_returns:
  assumes "makedirs ev = None"
  shows "fst (save_response ev w (Some ep) d ie st) = Returns ()"
  using assms by (simp add: save_response_def Let_def split: option.splits outcome.splits)

lemma save_response_logs_failure:
  assumes "makedirs ev = None" and "open_file ev (artifact_path ev w ep ie) = Some e"
  shows "snd (save_response ev w (Some ep) d ie st) = emit [save_failed ep ie e] w"
  using assms by (cases ie) (simp_all add: save_response_def Let_def artifact_path_def save_failed_def)

text \<open>
  C10. A failure to open or write the artifact file changes neither what a call returns
  nor how the batch goes on: whatever opening a file does (\<open>f\<close>), the single call and the
  nested call return or raise the same as before and leave worlds that differ in log
  entries and written files at most (the same store, token, clock, number of requests and
  the same requests, token requests, invocations and pauses in the trace). Once the
  directory exists, \<open>_save_response\<close> returns; and when the file cannot be opened, what it
  does is to log the failure.
\<close>

theorem file_write_failure_changes_no_result:
  "agree (call_single_api ev reg self w c) (call_single_api (ev\<lparr>open_file := f\<rparr>) reg self w c)
   \<and> agree (call_nested_apis ev reg self w parent children)
            (call_nested_apis (ev\<lparr>open_file := f\<rparr>) reg self w parent children)
   \<and> (makedirs ev = None \<longrightarrow> fst (save_response ev w (Some ep) d ie st) = Returns ())
   \<and> (makedirs ev = None \<and> open_file ev (artifact_path ev w ep ie) = Some e \<longrightarrow>
        snd (save_response ev w (Some ep) d ie st) = emit [save_failed ep ie e] w)"
  using call_single_api_agree[of w w ev reg self c f]
        call_nested_apis_agree[of ev reg self w parent children f]
        save_response_returns[of ev w ep d ie st]
        save_response_logs_failure[of ev w ep ie e d st]
  by simp


theorem file_write_failure_changes_no_result_witness:
  "fst (call_single_api (disk_full (parent_server id_raw id_doc)) empty_registry basic_handler
          (start_world []) (parent_config None)) = Returns (Some (ok_response id_raw id_doc))
   \<and> save_response (disk_full (parent_server id_raw id_doc)) (start_world []) (Some ''/parent'')
         (PJson id_doc) False None
       = (Returns (),
          emit [save_failed ''/parent'' False (PyException ''No space left on device'')]
            (start_world []))"
proof -
  let ?ev = "parent_server id_raw id_doc"
  let ?f = "\<lambda>path::string. Some (PyException ''No space left on device'')"
  let ?w = "start_world []"
  have normal: "fst (call_single_api ?ev empty_registry basic_handler ?w (parent_config None))
                = Returns (Some (ok_response id_raw id_doc))"
    by (simp add: run_defs input_defs Let_def str_int_200)
  have dirs: "makedirs (disk_full ?ev) = None"
    by (simp add: disk_full_def parent_server_def)
  have full: "open_file (disk_full ?ev) (artifact_path (disk_full ?ev) ?w ''/parent'' False)
              = Some (PyException ''No space left on device'')"
    by (simp add: disk_full_def)
  have single: "fst (call_single_api (disk_full ?ev) empty_registry basic_handler ?w (parent_config None))
                = Returns (Some (ok_response id_raw id_doc))"
    using file_write_failure_changes_no_result[of ?ev empty_registry basic_handler ?w
            "parent_config None" ?f "parent_config None" "[]" "''/parent''" "PJson id_doc" False None
            "PyException ''No space left on device''"] normal
    by (simp add: agree_def disk_full_def)
  have saved: "save_response (disk_full ?ev) ?w (Some ''/parent'') (PJson id_doc) False None
       = (Returns (), emit [save_failed ''/parent'' False (PyException ''No space left on device'')] ?w)"
    using file_write_failure_changes_no_result[of "disk_full ?ev" empty_registry basic_handler ?w
            "parent_config None" ?f "parent_config None" "[]" "''/parent''" "PJson id_doc" False None
            "PyException ''No space left on device''"] dirs full
    by (simp add: prod_eq_iff)
  show ?thesis
    using single saved by simp
qed

end
